theory Spec2Isabelle
  imports Main "HOL-Library.AList" "HOL-Library.Char_ord" "HOL-Library.List_Lexorder"
begin

section \<open>The in-memory economy of bingocoin.py\<close>

text \<open>
  The server keeps one global dictionary \<open>GAME\<close> and one \<open>WSManager\<close>. Every HTTP
  handler reads and mutates them between two suspension points, so a handler is modelled
  as a function from the state before to a response and the state after.

  Conventions of the embedding:
  \<^item> a Python \<open>dict\<close> is an association list; the order of the list is the insertion
    order of the dictionary, which \<open>get_cashier_id\<close> and the player listing iterate over.
    \<open>d[k] = v\<close> is \<open>AList.update\<close> (in place for a present key, appended for a new one),
    \<open>d.pop(k, None)\<close> is \<open>AList.delete\<close>, \<open>d[k][f] = v\<close> for a key known to be present
    is \<open>AList.map_entry\<close>, \<open>k in d\<close> and \<open>d.get(k)\<close> are \<open>map_of\<close>;
  \<^item> Python integers are \<open>int\<close>;
  \<^item> a string is a list of characters, each a code point below 256;
  \<^item> a request field read with \<open>str(data.get(k, default))\<close> is a \<open>string option\<close>:
    \<open>None\<close> when the key is absent, \<open>Some v\<close> with \<open>v\<close> the \<open>str\<close> of the value
    otherwise; a field read with \<open>int(data.get(k))\<close> is an \<open>int option\<close>: \<open>None\<close> when
    the conversion raises, \<open>Some n\<close> when it yields \<open>n\<close>. \<open>py_int\<close> below is that
    conversion, from the JSON value of the field;
  \<^item> the header \<open>X-User\<close> is a \<open>string option\<close>;
  \<^item> \<open>now_ts()\<close> reads a clock: each handler takes \<open>clk\<close>, with \<open>clk k\<close> the value
    of its \<open>k\<close>-th call of \<open>now_ts()\<close>;
  \<^item> \<open>secrets.token_hex(8)\<close> encodes eight random bytes: \<open>join\<close> takes the number
    \<open>rnd\<close> those bytes spell. A token may be one already in use; the model then
    overwrites the entry, as the dictionary assignment does;
  \<^item> requests run one after the other. A handler suspends only in its final
    \<open>await ws_manager.broadcast()\<close>, after all its checks and mutations; what a reply
    reads after that point (the pot in the reply of \<open>player_play\<close>) is read in the
    model from the state the handler itself leaves.
\<close>

subsection \<open>Data\<close>

record player =
  name :: string
  role :: string
  saldo :: int

record ledger_entry =
  delta :: int
  "note" :: string
  ts :: int

record prize =
  prize_name :: string
  amount :: int
  winner_id :: "string option"
  paid :: bool
  prize_ts :: int

record log_entry =
  log_ts :: int
  msg :: string

text \<open>
  The five keys of \<open>GAME\<close>, and \<open>broadcasts\<close>: the number of calls of
  \<open>ws_manager.broadcast()\<close> made so far.
\<close>

record game =
  players :: "(string \<times> player) list"
  ledger :: "(string \<times> ledger_entry list) list"
  prizes :: "prize list"
  pot :: int
  log :: "log_entry list"
  broadcasts :: nat

definition GAME :: game where
  "GAME = \<lparr>players = [], ledger = [], prizes = [], pot = 0, log = [], broadcasts = 0\<rparr>"

definition CASHIER_PIN :: string where
  "CASHIER_PIN = ''4321''"

type_synonym clock = "nat \<Rightarrow> int"

datatype error =
    Nome_mancante
  | Ruolo_non_valido
  | PIN_cassiere_errato
  | Non_autorizzato
  | Solo_cassiere
  | Solo_giocatore
  | Importo_non_valido
  | Importo_deve_essere_positivo
  | Importo_superiore_al_saldo
  | Giocatore_non_valido
  | Seleziona_un_giocatore
  | Nome_premio_mancante
  | Premi_eccedono_il_montepremi int int int
  | Indice_premio_non_valido
  | Premio_non_trovato
  | Premio_gia_pagato
  | Vincitore_non_valido
  | Vincitore_deve_essere_giocatore
  | Montepremi_insufficiente


datatype reply =
    Joined string string string
  | Ok_pot int
  | Ok

type_synonym response = "error + reply"

subsection \<open>Strings\<close>

text \<open>\<open>str.isspace\<close>, \<open>str.strip\<close> and \<open>str.lower\<close> on code points below 256.\<close>

definition isspace :: "char \<Rightarrow> bool" where
  "isspace c = (let n = of_char c :: nat in
     (9 \<le> n \<and> n \<le> 13) \<or> (28 \<le> n \<and> n \<le> 32) \<or> n = 133 \<or> n = 160)"

definition strip :: "string \<Rightarrow> string" where
  "strip s = rev (dropWhile isspace (rev (dropWhile isspace s)))"

definition lower_char :: "char \<Rightarrow> char" where
  "lower_char c = (let n = of_char c :: nat in
     if (65 \<le> n \<and> n \<le> 90) \<or> (192 \<le> n \<and> n \<le> 222 \<and> n \<noteq> 215)
     then char_of (n + 32) else c)"

definition lower :: "string \<Rightarrow> string" where
  "lower s = map lower_char s"

definition get_str :: "string option \<Rightarrow> string \<Rightarrow> string" where
  "get_str field dflt = (case field of None \<Rightarrow> dflt | Some v \<Rightarrow> v)"

subsection \<open>Request values and \<open>int\<close>\<close>










text \<open>The decimal text of an integer, as an f-string prints it.\<close>

function str_nat :: "nat \<Rightarrow> string" where
  "str_nat n = (if n < 10 then [char_of (48 + n)]
                else str_nat (n div 10) @ [char_of (48 + n mod 10)])"
  by pat_completeness auto
termination
  by (relation "measure (\<lambda>n. n)") auto

declare str_nat.simps [simp del]

definition str_int :: "int \<Rightarrow> string" where
  "str_int i = (if i < 0 then CHR ''-'' # str_nat (nat (- i)) else str_nat (nat i))"

text \<open>\<open>token_hex nbytes\<close>: two lowercase hexadecimal digits for each random byte.\<close>

definition hexdigit :: "nat \<Rightarrow> char" where
  "hexdigit d = (if d < 10 then char_of (48 + d) else char_of (87 + d))"

fun hex_digits :: "nat \<Rightarrow> nat \<Rightarrow> string" where
  "hex_digits 0 v = []"
| "hex_digits (Suc k) v = hex_digits k (v div 16) @ [hexdigit (v mod 16)]"

definition token_hex :: "nat \<Rightarrow> nat \<Rightarrow> string" where
  "token_hex nbytes rnd = hex_digits (2 * nbytes) rnd"

subsection \<open>Utilities\<close>

definition add_log :: "string \<Rightarrow> int \<Rightarrow> game \<Rightarrow> game" where
  "add_log m t g = g\<lparr>log := take 300 (\<lparr>log_ts = t, msg = m\<rparr> # log g)\<rparr>"

definition ensure_ledger :: "string \<Rightarrow> game \<Rightarrow> game" where
  "ensure_ledger uid g =
     (case map_of (ledger g) uid of
        None \<Rightarrow> g\<lparr>ledger := AList.update uid [] (ledger g)\<rparr>
      | Some _ \<Rightarrow> g)"

definition add_ledger_delta :: "string \<Rightarrow> int \<Rightarrow> string \<Rightarrow> int \<Rightarrow> game \<Rightarrow> game" where
  "add_ledger_delta uid d n t g =
     (let g1 = ensure_ledger uid g
      in g1\<lparr>ledger := AList.map_entry uid
               (\<lambda>l. take 1500 (\<lparr>delta = d, note = n, ts = t\<rparr> # l)) (ledger g1)\<rparr>)"

definition get_cashier_id :: "game \<Rightarrow> string option" where
  "get_cashier_id g =
     map_option fst (find (\<lambda>(uid, p). role p = ''cassiere'') (players g))"

definition require_cashier :: "game \<Rightarrow> string option \<Rightarrow> error + string" where
  "require_cashier g x_user =
     (case x_user of
        None \<Rightarrow> Inl Non_autorizzato
      | Some uid \<Rightarrow>
          if uid = [] then Inl Non_autorizzato
          else (case map_of (players g) uid of
                  None \<Rightarrow> Inl Non_autorizzato
                | Some p \<Rightarrow>
                    if role p \<noteq> ''cassiere'' then Inl Solo_cassiere else Inr uid))"

definition require_player :: "game \<Rightarrow> string option \<Rightarrow> error + string" where
  "require_player g x_user =
     (case x_user of
        None \<Rightarrow> Inl Non_autorizzato
      | Some uid \<Rightarrow>
          if uid = [] then Inl Non_autorizzato
          else (case map_of (players g) uid of
                  None \<Rightarrow> Inl Non_autorizzato
                | Some p \<Rightarrow>
                    if role p \<noteq> ''giocatore'' then Inl Solo_giocatore else Inr uid))"

definition total_prizes_defined_unpaid :: "game \<Rightarrow> int" where
  "total_prizes_defined_unpaid g = sum_list (map amount (filter (\<lambda>p. \<not> paid p) (prizes g)))"

definition total_prizes_paid :: "game \<Rightarrow> int" where
  "total_prizes_paid g = sum_list (map amount (filter paid (prizes g)))"

text \<open>
  Reading a field of \<open>GAME["players"][uid]\<close>. The handlers read only after they have
  checked that \<open>uid\<close> is a key; the value for an absent key is never used.
\<close>

definition saldo_of :: "game \<Rightarrow> string \<Rightarrow> int" where
  "saldo_of g uid = (case map_of (players g) uid of None \<Rightarrow> 0 | Some p \<Rightarrow> saldo p)"

definition name_of :: "game \<Rightarrow> string \<Rightarrow> string" where
  "name_of g uid = (case map_of (players g) uid of None \<Rightarrow> [] | Some p \<Rightarrow> name p)"

text \<open>\<open>GAME["players"][uid]["saldo"] = v\<close> and \<open>GAME["players"][uid]["saldo"] += d\<close>.\<close>

definition set_saldo :: "string \<Rightarrow> int \<Rightarrow> game \<Rightarrow> game" where
  "set_saldo uid v g = g\<lparr>players := AList.map_entry uid (\<lambda>p. p\<lparr>saldo := v\<rparr>) (players g)\<rparr>"

definition add_saldo :: "string \<Rightarrow> int \<Rightarrow> game \<Rightarrow> game" where
  "add_saldo uid d g =
     g\<lparr>players := AList.map_entry uid (\<lambda>p. p\<lparr>saldo := saldo p + d\<rparr>) (players g)\<rparr>"

text \<open>
  \<open>ws_manager.broadcast()\<close> sends every connected client its own projection of the
  state; of this the model keeps that the call was made. Computing a projection can
  touch \<open>GAME\<close> only through \<open>ensure_ledger\<close> for the viewer (see
  \<open>my_history_public_for\<close>); the reachable states are closed under it (rule \<open>view\<close>
  below), and in a reachable state it changes nothing (lemma \<open>view_unchanged\<close>).
\<close>

definition broadcast :: "game \<Rightarrow> game" where
  "broadcast g = g\<lparr>broadcasts := Suc (broadcasts g)\<rparr>"

subsection \<open>Join\<close>

text \<open>The part of \<open>join\<close> after the cashier branch: a new participant under a new token.\<close>

definition join_new :: "game \<Rightarrow> clock \<Rightarrow> string \<Rightarrow> string \<Rightarrow> nat \<Rightarrow> response \<times> game" where
  "join_new g clk nm rl rnd =
     (let uid = token_hex 8 rnd;
          g1 = g\<lparr>players := AList.update uid \<lparr>name = nm, role = rl, saldo = 0\<rparr> (players g)\<rparr>;
          g2 = ensure_ledger uid g1;
          g3 = add_log (nm @ [CHR '' '', CHR 0xE8] @ '' entrato ('' @ rl @ '')'') (clk 0) g2;
          g4 = broadcast g3
      in (Inr (Joined uid nm rl), g4))"

definition join ::
  "game \<Rightarrow> clock \<Rightarrow> string option \<Rightarrow> string option \<Rightarrow> string option \<Rightarrow> nat \<Rightarrow> response \<times> game"
where
  "join g clk d_name d_role d_pin rnd =
     (let nm = strip (get_str d_name []);
          rl = strip (get_str d_role ''giocatore'');
          pin = strip (get_str d_pin [])
      in if nm = [] then (Inl Nome_mancante, g)
         else if rl \<noteq> ''giocatore'' \<and> rl \<noteq> ''cassiere'' then (Inl Ruolo_non_valido, g)
         else if rl = ''cassiere'' then
           (if pin \<noteq> CASHIER_PIN then (Inl PIN_cassiere_errato, g)
            else (case get_cashier_id g of
                    None \<Rightarrow> join_new g clk nm rl rnd
                  | Some existing \<Rightarrow>
                      if existing = [] then join_new g clk nm rl rnd
                      else
                        (let g1 = g\<lparr>players :=
                                     AList.map_entry existing (\<lambda>p. p\<lparr>name := nm\<rparr>) (players g)\<rparr>;
                             g2 = add_log (''Cassiere rientrato: '' @ nm) (clk 0) g1;
                             g3 = broadcast g2
                         in (Inr (Joined existing nm ''cassiere''), g3))))
         else join_new g clk nm rl rnd)"

subsection \<open>Player\<close>

definition player_play ::
  "game \<Rightarrow> clock \<Rightarrow> string option \<Rightarrow> int option \<Rightarrow> response \<times> game"
where
  "player_play g clk x_user d_amount =
     (case require_player g x_user of
        Inl e \<Rightarrow> (Inl e, g)
      | Inr player_id \<Rightarrow>
          (case d_amount of
             None \<Rightarrow> (Inl Importo_non_valido, g)
           | Some amt \<Rightarrow>
               if amt \<le> 0 then (Inl Importo_deve_essere_positivo, g)
               else
                 (let saldo0 = saldo_of g player_id
                  in if amt > saldo0 then (Inl Importo_superiore_al_saldo, g)
                     else
                       (let g1 = set_saldo player_id (saldo0 - amt) g;
                            g2 = add_ledger_delta player_id (- amt) ''Gioca'' (clk 0) g1;
                            g3 = g2\<lparr>pot := pot g2 + amt\<rparr>;
                            g4 = add_log (''Montepremi +'' @ str_int amt @ '' (da ''
                                          @ name_of g3 player_id @ '')'') (clk 1) g3;
                            g5 = broadcast g4
                        in (Inr (Ok_pot (pot g5)), g5)))))"

subsection \<open>Cashier\<close>

definition cashier_credit ::
  "game \<Rightarrow> clock \<Rightarrow> string option \<Rightarrow> string option \<Rightarrow> int option \<Rightarrow> response \<times> game"
where
  "cashier_credit g clk x_user d_player_id d_amount =
     (case require_cashier g x_user of
        Inl e \<Rightarrow> (Inl e, g)
      | Inr cashier_id \<Rightarrow>
          (let player_id = strip (get_str d_player_id [])
           in if player_id = [] then (Inl Giocatore_non_valido, g)
              else (case map_of (players g) player_id of
                      None \<Rightarrow> (Inl Giocatore_non_valido, g)
                    | Some p \<Rightarrow>
                        if role p \<noteq> ''giocatore'' then (Inl Seleziona_un_giocatore, g)
                        else
                          (case d_amount of
                             None \<Rightarrow> (Inl Importo_non_valido, g)
                           | Some amt \<Rightarrow>
                               if amt \<le> 0 then (Inl Importo_deve_essere_positivo, g)
                               else
                                 (let g1 = add_saldo player_id amt g;
                                      g2 = add_ledger_delta player_id amt ''Accredito'' (clk 0) g1;
                                      g3 = add_saldo cashier_id (- amt) g2;
                                      g4 = add_ledger_delta cashier_id (- amt)
                                             (''Accredito a '' @ name_of g3 player_id) (clk 1) g3;
                                      g5 = add_log (''Accredito: '' @ name_of g4 player_id @ '' +''
                                                    @ str_int amt @ [CHR '' '', CHR 0xB7]
                                                    @ '' Cassiere -'' @ str_int amt) (clk 2) g4;
                                      g6 = broadcast g5
                                  in (Inr Ok, g6))))))"

definition cashier_add_prize ::
  "game \<Rightarrow> clock \<Rightarrow> string option \<Rightarrow> string option \<Rightarrow> int option \<Rightarrow> response \<times> game"
where
  "cashier_add_prize g clk x_user d_name d_amount =
     (case require_cashier g x_user of
        Inl e \<Rightarrow> (Inl e, g)
      | Inr _ \<Rightarrow>
          (let nm = strip (get_str d_name [])
           in if nm = [] then (Inl Nome_premio_mancante, g)
              else
                (case d_amount of
                   None \<Rightarrow> (Inl Importo_non_valido, g)
                 | Some amt \<Rightarrow>
                     if amt \<le> 0 then (Inl Importo_deve_essere_positivo, g)
                     else
                       (let defined_unpaid = total_prizes_defined_unpaid g;
                            pot0 = pot g
                        in if defined_unpaid + amt > pot0
                           then (Inl (Premi_eccedono_il_montepremi defined_unpaid amt pot0), g)
                           else
                             (let g1 = g\<lparr>prizes := prizes g @
                                          [\<lparr>prize_name = nm, amount = amt, winner_id = None,
                                            paid = False, prize_ts = clk 0\<rparr>]\<rparr>;
                                  g2 = add_log (''Premio definito: '' @ nm @ '' = '' @ str_int amt)
                                         (clk 1) g1;
                                  g3 = broadcast g2
                              in (Inr Ok, g3))))))"

definition cashier_assign_prize ::
  "game \<Rightarrow> clock \<Rightarrow> string option \<Rightarrow> int option \<Rightarrow> string option \<Rightarrow> response \<times> game"
where
  "cashier_assign_prize g clk x_user d_index d_winner_id =
     (case require_cashier g x_user of
        Inl e \<Rightarrow> (Inl e, g)
      | Inr _ \<Rightarrow>
          (case d_index of
             None \<Rightarrow> (Inl Indice_premio_non_valido, g)
           | Some idx \<Rightarrow>
               if idx < 0 \<or> idx \<ge> int (length (prizes g)) then (Inl Premio_non_trovato, g)
               else
                 (let prize0 = prizes g ! nat idx
                  in if paid prize0 then (Inl Premio_gia_pagato, g)
                     else
                       (let winner = strip (get_str d_winner_id [])
                        in if winner = [] then (Inl Vincitore_non_valido, g)
                           else (case map_of (players g) winner of
                                   None \<Rightarrow> (Inl Vincitore_non_valido, g)
                                 | Some p \<Rightarrow>
                                     if role p \<noteq> ''giocatore''
                                     then (Inl Vincitore_deve_essere_giocatore, g)
                                     else
                                       (let amt = amount prize0;
                                            pname = prize_name prize0
                                        in if pot g < amt then (Inl Montepremi_insufficiente, g)
                                           else
                                             (let g1 = add_saldo winner amt g;
                                                  g2 = add_ledger_delta winner amt
                                                         (''Premio: '' @ pname) (clk 0) g1;
                                                  g3 = g2\<lparr>pot := pot g2 - amt\<rparr>;
                                                  g4 = g3\<lparr>prizes := (prizes g3)[nat idx :=
                                                         (prizes g3 ! nat idx)
                                                           \<lparr>winner_id := Some winner, paid := True\<rparr>]\<rparr>;
                                                  g5 = add_log (''Premio assegnato: '' @ pname
                                                         @ '' -> '' @ name_of g4 winner @ '' (''
                                                         @ str_int amt @ '')'') (clk 1) g4;
                                                  g6 = broadcast g5
                                              in (Inr Ok, g6))))))))"

text \<open>The loop of \<open>cashier_reset_players\<close> over \<open>to_remove\<close>.\<close>

fun remove_all :: "string list \<Rightarrow> game \<Rightarrow> game" where
  "remove_all [] g = g"
| "remove_all (uid # uids) g =
     remove_all uids (g\<lparr>players := AList.delete uid (players g),
                        ledger := AList.delete uid (ledger g)\<rparr>)"

definition cashier_reset_players :: "game \<Rightarrow> clock \<Rightarrow> string option \<Rightarrow> response \<times> game" where
  "cashier_reset_players g clk x_user =
     (case require_cashier g x_user of
        Inl e \<Rightarrow> (Inl e, g)
      | Inr cashier_id \<Rightarrow>
          (let to_remove = map fst (filter (\<lambda>(uid, p). role p = ''giocatore'') (players g));
               g1 = remove_all to_remove g;
               g2 = g1\<lparr>prizes := [], pot := 0\<rparr>;
               g3 = (case map_of (players g2) cashier_id of
                       None \<Rightarrow> g2
                     | Some _ \<Rightarrow>
                         (set_saldo cashier_id 0 g2)
                           \<lparr>ledger := AList.update cashier_id [] (ledger g2)\<rparr>);
               g4 = add_log (''Reset: giocatori invalidati, premi e montepremi azzerati, ''
                             @ ''saldo cassiere azzerato.'') (clk 0) g3;
               g5 = broadcast g4
           in (Inr Ok, g5)))"

definition cashier_logout :: "game \<Rightarrow> clock \<Rightarrow> string option \<Rightarrow> response \<times> game" where
  "cashier_logout g clk x_user =
     (case require_cashier g x_user of
        Inl e \<Rightarrow> (Inl e, g)
      | Inr cashier_id \<Rightarrow>
          (let nm = name_of g cashier_id;
               g1 = g\<lparr>players := AList.delete cashier_id (players g),
                      ledger := AList.delete cashier_id (ledger g)\<rparr>;
               g2 = add_log (''Cassiere uscito: '' @ nm @ '' (sessione invalidata)'') (clk 0) g1;
               g3 = broadcast g2
           in (Inr Ok, g3)))"

subsection \<open>Privacy: the state a viewer is sent\<close>

record public_player =
  pub_id :: string
  pub_name :: string
  pub_role :: string
  pub_saldo :: "int option"

datatype pot_block =
    Pot_cashier int int int int
  | Pot_only int

record snapshot =
  snap_title :: string
  snap_players :: "public_player list"
  snap_my_history :: "ledger_entry list"
  snap_prizes :: "prize list"
  snap_pot :: pot_block
  snap_log :: "log_entry list"

definition APP_TITLE :: string where
  "APP_TITLE = ''BingoCoin''"

text \<open>\<open>GAME["players"].get(viewer_id) if viewer_id else None\<close>.\<close>

definition viewer_of :: "game \<Rightarrow> string option \<Rightarrow> player option" where
  "viewer_of g viewer_id =
     (case viewer_id of
        None \<Rightarrow> None
      | Some v \<Rightarrow> if v = [] then None else map_of (players g) v)"

definition players_public_for :: "game \<Rightarrow> string option \<Rightarrow> public_player list" where
  "players_public_for g viewer_id =
     (let viewer_role = map_option role (viewer_of g viewer_id);
          out = map (\<lambda>(uid, pdata).
                  \<lparr>pub_id = uid, pub_name = name pdata, pub_role = role pdata,
                   pub_saldo =
                     (if viewer_role = Some ''cassiere'' then Some (saldo pdata)
                      else if viewer_id \<noteq> None \<and> viewer_id \<noteq> Some [] \<and> Some uid = viewer_id
                           then Some (saldo pdata) else None)\<rparr>)
                (players g)
      in sort_key (\<lambda>x. lower (pub_name x)) out)"

definition my_history_public_for :: "game \<Rightarrow> string option \<Rightarrow> ledger_entry list \<times> game" where
  "my_history_public_for g viewer_id =
     (case viewer_id of
        None \<Rightarrow> ([], g)
      | Some v \<Rightarrow>
          if v = [] then ([], g)
          else (case map_of (players g) v of
                  None \<Rightarrow> ([], g)
                | Some p \<Rightarrow>
                    if role p \<noteq> ''giocatore'' then ([], g)
                    else (let g1 = ensure_ledger v g
                          in (case map_of (ledger g1) v of
                                None \<Rightarrow> ([], g1)
                              | Some l \<Rightarrow> (take 250 l, g1)))))"

definition public_state_for :: "game \<Rightarrow> string option \<Rightarrow> snapshot \<times> game" where
  "public_state_for g viewer_id =
     (let rl = map_option role (viewer_of g viewer_id);
          prizes_out = (if rl = Some ''cassiere'' then prizes g
                        else if rl = Some ''giocatore'' then filter (\<lambda>p. \<not> paid p) (prizes g)
                        else []);
          pot0 = pot g;
          unpaid = total_prizes_defined_unpaid g;
          pot_remaining = (if pot0 - unpaid < 0 then 0 else pot0 - unpaid);
          pot_blk = (if rl = Some ''cassiere''
                     then Pot_cashier pot0 unpaid (total_prizes_paid g) pot_remaining
                     else Pot_only pot0);
          pl = players_public_for g viewer_id;
          (hist, g1) = my_history_public_for g viewer_id
      in (\<lparr>snap_title = APP_TITLE, snap_players = pl, snap_my_history = hist,
           snap_prizes = prizes_out, snap_pot = pot_blk, snap_log = log g1\<rparr>, g1))"

subsection \<open>Requests and reachable states\<close>

datatype request =
    Join "string option" "string option" "string option" nat
  | Play "string option" "int option"
  | Credit "string option" "string option" "int option"
  | Add_prize "string option" "string option" "int option"
  | Assign_prize "string option" "int option" "string option"
  | Reset_players "string option"
  | Logout "string option"

fun handle :: "game \<Rightarrow> clock \<Rightarrow> request \<Rightarrow> response \<times> game" where
  "handle g clk (Join d_name d_role d_pin rnd) = join g clk d_name d_role d_pin rnd"
| "handle g clk (Play x_user d_amount) = player_play g clk x_user d_amount"
| "handle g clk (Credit x_user d_player_id d_amount) =
     cashier_credit g clk x_user d_player_id d_amount"
| "handle g clk (Add_prize x_user d_name d_amount) = cashier_add_prize g clk x_user d_name d_amount"
| "handle g clk (Assign_prize x_user d_index d_winner_id) =
     cashier_assign_prize g clk x_user d_index d_winner_id"
| "handle g clk (Reset_players x_user) = cashier_reset_players g clk x_user"
| "handle g clk (Logout x_user) = cashier_logout g clk x_user"

text \<open>
  The states the server can be in: the initial \<open>GAME\<close>, and what a request or the
  computing of a projection (for a websocket client) leaves behind.
\<close>

inductive reachable :: "game \<Rightarrow> bool" where
  start: "reachable GAME"
| request: "reachable g \<Longrightarrow> reachable (snd (handle g clk req))"
| view: "reachable g \<Longrightarrow> reachable (snd (public_state_for g viewer_id))"

text \<open>Running a list of requests, each with its own clock, from left to right.\<close>

fun run :: "game \<Rightarrow> (clock \<times> request) list \<Rightarrow> game" where
  "run g [] = g"
| "run g ((clk, req) # rs) = run (snd (handle g clk req)) rs"

text \<open>The value in the system: all balances and the pot; the balances of the players only.\<close>

definition total_value :: "game \<Rightarrow> int" where
  "total_value g = sum_list (map (\<lambda>(uid, p). saldo p) (players g)) + pot g"

definition players_value :: "game \<Rightarrow> int" where
  "players_value g =
     sum_list (map (\<lambda>(uid, p). saldo p) (filter (\<lambda>(uid, p). role p = ''giocatore'') (players g)))
     + pot g"

text \<open>
  The requests that move value (play, credit, assign a prize), the amount a request
  credits (that of a \<open>cashier_credit\<close> that succeeds, else 0), and the amount credited
  over a run.
\<close>

fun is_transfer :: "request \<Rightarrow> bool" where
  "is_transfer (Play _ _) = True"
| "is_transfer (Credit _ _ _) = True"
| "is_transfer (Assign_prize _ _ _) = True"
| "is_transfer _ = False"

fun credited_by :: "game \<Rightarrow> clock \<Rightarrow> request \<Rightarrow> int" where
  "credited_by g clk (Credit x_user d_player_id d_amount) =
     (case (fst (cashier_credit g clk x_user d_player_id d_amount), d_amount) of
        (Inr _, Some amt) \<Rightarrow> amt
      | _ \<Rightarrow> 0)"
| "credited_by g clk _ = 0"

fun credited :: "game \<Rightarrow> (clock \<times> request) list \<Rightarrow> int" where
  "credited g [] = 0"
| "credited g ((clk, req) # rs) = credited_by g clk req + credited (snd (handle g clk req)) rs"

text \<open>
  What the handlers keep true of the registry: the ids are distinct and none is empty,
  every role is \<open>giocatore\<close> or \<open>cassiere\<close>, at most one participant is the cashier,
  and every participant has a ledger.
\<close>

definition players_ok :: "(string \<times> player) list \<Rightarrow> bool" where
  "players_ok al \<longleftrightarrow>
     distinct (map fst al) \<and> [] \<notin> set (map fst al)
     \<and> (\<forall>(uid, p) \<in> set al. role p = ''giocatore'' \<or> role p = ''cassiere'')
     \<and> length (filter (\<lambda>(uid, p). role p = ''cassiere'') al) \<le> 1"

definition well_formed :: "game \<Rightarrow> bool" where
  "well_formed g \<longleftrightarrow>
     players_ok (players g) \<and> set (map fst (players g)) \<subseteq> set (map fst (ledger g))"

subsection \<open>A session\<close>

text \<open>
  The scenario of the specification, as requests: the cashier joins with the PIN, a
  player joins (no role given, so \<open>giocatore\<close>), the cashier credits the player 50, the
  player plays 30, the cashier defines the prize Tombola of 30 and assigns it to the
  player. \<open>after n\<close> is the state after the first \<open>n\<close> requests.
\<close>

definition tick :: clock where
  "tick k = 1700000000 + int k"

definition scenario :: "(clock \<times> request) list" where
  "scenario =
     [(tick, Join (Some ''Carla'') (Some ''cassiere'') (Some ''4321'') 1),
      (tick, Join (Some '' Piero '') None None 2),
      (tick, Credit (Some ''0000000000000001'') (Some ''0000000000000002'') (Some 50)),
      (tick, Play (Some ''0000000000000002'') (Some 30)),
      (tick, Add_prize (Some ''0000000000000001'') (Some ''Tombola'') (Some 30)),
      (tick, Assign_prize (Some ''0000000000000001'') (Some 0) (Some ''0000000000000002''))]"

definition after :: "nat \<Rightarrow> game" where
  "after n = run GAME (take n scenario)"

section \<open>Frame lemmas of the utilities\<close>

lemma add_log_fields [simp]:
  "players (add_log m t g) = players g"
  "ledger (add_log m t g) = ledger g"
  "prizes (add_log m t g) = prizes g"
  "pot (add_log m t g) = pot g"
  "broadcasts (add_log m t g) = broadcasts g"
  by (simp_all add: add_log_def)

lemma broadcast_fields [simp]:
  "players (broadcast g) = players g"
  "ledger (broadcast g) = ledger g"
  "prizes (broadcast g) = prizes g"
  "pot (broadcast g) = pot g"
  "log (broadcast g) = log g"
  "broadcasts (broadcast g) = Suc (broadcasts g)"
  by (simp_all add: broadcast_def)

lemma ensure_ledger_fields [simp]:
  "players (ensure_ledger uid g) = players g"
  "prizes (ensure_ledger uid g) = prizes g"
  "pot (ensure_ledger uid g) = pot g"
  "log (ensure_ledger uid g) = log g"
  "broadcasts (ensure_ledger uid g) = broadcasts g"
  by (simp_all add: ensure_ledger_def split: option.splits)

lemma add_ledger_delta_fields [simp]:
  "players (add_ledger_delta uid d n t g) = players g"
  "prizes (add_ledger_delta uid d n t g) = prizes g"
  "pot (add_ledger_delta uid d n t g) = pot g"
  "log (add_ledger_delta uid d n t g) = log g"
  "broadcasts (add_ledger_delta uid d n t g) = broadcasts g"
  by (simp_all add: add_ledger_delta_def Let_def)

lemma set_saldo_fields [simp]:
  "ledger (set_saldo uid v g) = ledger g"
  "prizes (set_saldo uid v g) = prizes g"
  "pot (set_saldo uid v g) = pot g"
  "log (set_saldo uid v g) = log g"
  "broadcasts (set_saldo uid v g) = broadcasts g"
  by (simp_all add: set_saldo_def)

lemma add_saldo_fields [simp]:
  "ledger (add_saldo uid d g) = ledger g"
  "prizes (add_saldo uid d g) = prizes g"
  "pot (add_saldo uid d g) = pot g"
  "log (add_saldo uid d g) = log g"
  "broadcasts (add_saldo uid d g) = broadcasts g"
  by (simp_all add: add_saldo_def)

lemma remove_all_fields [simp]:
  "prizes (remove_all uids g) = prizes g"
  "pot (remove_all uids g) = pot g"
  "log (remove_all uids g) = log g"
  "broadcasts (remove_all uids g) = broadcasts g"
  by (induction uids arbitrary: g; simp)+

lemma my_history_fields [simp]:
  "players (snd (my_history_public_for g v)) = players g"
  "prizes (snd (my_history_public_for g v)) = prizes g"
  "pot (snd (my_history_public_for g v)) = pot g"
  "log (snd (my_history_public_for g v)) = log g"
  "broadcasts (snd (my_history_public_for g v)) = broadcasts g"
  by (simp_all add: my_history_public_for_def Let_def split: option.splits)

lemma public_state_snd: "snd (public_state_for g v) = snd (my_history_public_for g v)"
  by (simp add: public_state_for_def Let_def split: prod.splits)

section \<open>What each handler does\<close>

lemma ledger_ensure_ledger:
  "ledger (ensure_ledger uid g) =
     (case map_of (ledger g) uid of None \<Rightarrow> AList.update uid [] (ledger g) | Some _ \<Rightarrow> ledger g)"
  by (simp add: ensure_ledger_def split: option.splits)

lemma ledger_add_ledger_delta:
  "ledger (add_ledger_delta uid d n t g) =
     AList.map_entry uid (\<lambda>l. take 1500 (\<lparr>delta = d, note = n, ts = t\<rparr> # l))
       (ledger (ensure_ledger uid g))"
  by (simp add: add_ledger_delta_def Let_def)

lemma players_set_saldo [simp]:
  "players (set_saldo uid v g) = AList.map_entry uid (\<lambda>p. p\<lparr>saldo := v\<rparr>) (players g)"
  by (simp add: set_saldo_def)

lemma players_add_saldo [simp]:
  "players (add_saldo uid d g) = AList.map_entry uid (\<lambda>p. p\<lparr>saldo := saldo p + d\<rparr>) (players g)"
  by (simp add: add_saldo_def)

lemma join_new_ok:
  assumes "join_new g clk nm rl rnd = (r, g')"
  shows "r = Inr (Joined (token_hex 8 rnd) nm rl)"
    "players g' = AList.update (token_hex 8 rnd) \<lparr>name = nm, role = rl, saldo = 0\<rparr> (players g)"
    "ledger g' = ledger (ensure_ledger (token_hex 8 rnd) g)"
    "prizes g' = prizes g" "pot g' = pot g" "broadcasts g' = Suc (broadcasts g)"
  using assms by (auto simp: join_new_def Let_def ledger_ensure_ledger split: option.splits)

lemma join_fail: "join g clk dn dr dp rnd = (Inl e, g') \<Longrightarrow> g' = g"
  by (auto simp: join_def join_new_def Let_def split: option.splits if_splits)

lemma join_ok:
  assumes "join g clk dn dr dp rnd = (Inr r, g')"
  obtains (rename) existing where
      "strip (get_str dn []) \<noteq> []"
      "strip (get_str dr ''giocatore'') = ''cassiere''" "strip (get_str dp []) = CASHIER_PIN"
      "get_cashier_id g = Some existing" "existing \<noteq> []"
      "players g' = AList.map_entry existing (\<lambda>p. p\<lparr>name := strip (get_str dn [])\<rparr>) (players g)"
      "ledger g' = ledger g" "prizes g' = prizes g" "pot g' = pot g"
      "broadcasts g' = Suc (broadcasts g)"
      "r = Joined existing (strip (get_str dn [])) ''cassiere''"
  | (new) rl where
      "strip (get_str dn []) \<noteq> []"
      "rl = strip (get_str dr ''giocatore'')" "rl = ''giocatore'' \<or> rl = ''cassiere''"
      "rl = ''cassiere'' \<Longrightarrow> strip (get_str dp []) = CASHIER_PIN"
      "rl = ''cassiere'' \<Longrightarrow> get_cashier_id g = None \<or> get_cashier_id g = Some []"
      "players g' = AList.update (token_hex 8 rnd)
                      \<lparr>name = strip (get_str dn []), role = rl, saldo = 0\<rparr> (players g)"
      "ledger g' = ledger (ensure_ledger (token_hex 8 rnd) g)"
      "prizes g' = prizes g" "pot g' = pot g" "broadcasts g' = Suc (broadcasts g)"
      "r = Joined (token_hex 8 rnd) (strip (get_str dn [])) rl"
proof (cases "strip (get_str dr ''giocatore'') = ''cassiere'' \<and> (\<exists>e. get_cashier_id g = Some e \<and> e \<noteq> [])")
  case True
  then obtain ex where ex: "get_cashier_id g = Some ex" "ex \<noteq> []" by blast
  with True assms show ?thesis
    by (intro rename[of ex]) (auto simp: join_def Let_def split: if_splits)
next
  case False
  let ?rl = "strip (get_str dr ''giocatore'')"
  from False assms have nm: "strip (get_str dn []) \<noteq> []" and rl: "?rl = ''giocatore'' \<or> ?rl = ''cassiere''"
    and pin: "?rl = ''cassiere'' \<Longrightarrow> strip (get_str dp []) = CASHIER_PIN"
    and jn: "join_new g clk (strip (get_str dn [])) ?rl rnd = (Inr r, g')"
    by (auto simp: join_def Let_def split: if_splits option.splits)
  from False have nc: "?rl = ''cassiere'' \<Longrightarrow> get_cashier_id g = None \<or> get_cashier_id g = Some []"
    by (cases "get_cashier_id g") auto
  show ?thesis
    using join_new_ok[OF jn] nm rl pin nc by (intro new[of ?rl]) auto
qed

lemma player_play_fail: "player_play g clk x a = (Inl e, g') \<Longrightarrow> g' = g"
  by (auto simp: player_play_def Let_def split: sum.splits option.splits if_splits)

lemma player_play_ok:
  assumes "player_play g clk x a = (Inr r, g')"
  obtains pid amt where "require_player g x = Inr pid" "a = Some amt" "0 < amt"
    "amt \<le> saldo_of g pid"
    "players g' = AList.map_entry pid (\<lambda>p. p\<lparr>saldo := saldo_of g pid - amt\<rparr>) (players g)"
    "ledger g' = ledger (add_ledger_delta pid (- amt) ''Gioca'' (clk 0) g)"
    "prizes g' = prizes g" "pot g' = pot g + amt"
    "broadcasts g' = Suc (broadcasts g)" "r = Ok_pot (pot g + amt)"
  using assms
  by (auto simp: player_play_def Let_def ledger_add_ledger_delta ledger_ensure_ledger
      split: sum.splits option.splits if_splits)

lemma cashier_credit_fail: "cashier_credit g clk x dp a = (Inl e, g') \<Longrightarrow> g' = g"
  by (auto simp: cashier_credit_def Let_def split: sum.splits option.splits if_splits)

lemma cashier_credit_ok:
  assumes "cashier_credit g clk x dp a = (Inr r, g')"
  obtains cid pid p amt where "require_cashier g x = Inr cid" "pid = strip (get_str dp [])"
    "map_of (players g) pid = Some p" "role p = ''giocatore''" "a = Some amt" "0 < amt"
    "players g' = AList.map_entry cid (\<lambda>p. p\<lparr>saldo := saldo p - amt\<rparr>)
                    (AList.map_entry pid (\<lambda>p. p\<lparr>saldo := saldo p + amt\<rparr>) (players g))"
    "prizes g' = prizes g" "pot g' = pot g"
    "broadcasts g' = Suc (broadcasts g)" "r = Ok"
  using assms
  by (auto simp: cashier_credit_def Let_def 
      split: sum.splits option.splits if_splits)

lemma cashier_add_prize_fail: "cashier_add_prize g clk x dn a = (Inl e, g') \<Longrightarrow> g' = g"
  by (auto simp: cashier_add_prize_def Let_def split: sum.splits option.splits if_splits)

lemma cashier_add_prize_ok:
  assumes "cashier_add_prize g clk x dn a = (Inr r, g')"
  obtains cid amt where "require_cashier g x = Inr cid" "strip (get_str dn []) \<noteq> []"
    "a = Some amt" "0 < amt" "total_prizes_defined_unpaid g + amt \<le> pot g"
    "players g' = players g" "ledger g' = ledger g"
    "prizes g' = prizes g @ [\<lparr>prize_name = strip (get_str dn []), amount = amt,
                               winner_id = None, paid = False, prize_ts = clk 0\<rparr>]"
    "pot g' = pot g" "broadcasts g' = Suc (broadcasts g)" "r = Ok"
  using assms
  by (auto simp: cashier_add_prize_def Let_def 
      split: sum.splits option.splits if_splits)

lemma cashier_assign_prize_fail: "cashier_assign_prize g clk x di dw = (Inl e, g') \<Longrightarrow> g' = g"
  by (auto simp: cashier_assign_prize_def Let_def split: sum.splits option.splits if_splits)

lemma cashier_assign_prize_ok:
  assumes "cashier_assign_prize g clk x di dw = (Inr r, g')"
  obtains cid idx w p where "require_cashier g x = Inr cid" "di = Some idx" "0 \<le> idx"
    "nat idx < length (prizes g)" "\<not> paid (prizes g ! nat idx)"
    "w = strip (get_str dw [])" "w \<noteq> []" "map_of (players g) w = Some p" "role p = ''giocatore''"
    "amount (prizes g ! nat idx) \<le> pot g"
    "players g' = AList.map_entry w (\<lambda>p. p\<lparr>saldo := saldo p + amount (prizes g ! nat idx)\<rparr>) (players g)"
    "ledger g' = ledger (add_ledger_delta w (amount (prizes g ! nat idx))
                   (''Premio: '' @ prize_name (prizes g ! nat idx)) (clk 0) g)"
    "prizes g' = (prizes g)[nat idx := (prizes g ! nat idx)\<lparr>winner_id := Some w, paid := True\<rparr>]"
    "pot g' = pot g - amount (prizes g ! nat idx)" "broadcasts g' = Suc (broadcasts g)" "r = Ok"
  using assms
  by (auto simp: cashier_assign_prize_def Let_def ledger_add_ledger_delta ledger_ensure_ledger
      split: sum.splits option.splits if_splits)

lemma cashier_reset_players_fail: "cashier_reset_players g clk x = (Inl e, g') \<Longrightarrow> g' = g"
  by (auto simp: cashier_reset_players_def Let_def split: sum.splits option.splits if_splits)

lemma cashier_logout_fail: "cashier_logout g clk x = (Inl e, g') \<Longrightarrow> g' = g"
  by (auto simp: cashier_logout_def Let_def split: sum.splits option.splits if_splits)

lemma cashier_logout_ok:
  assumes "cashier_logout g clk x = (Inr r, g')"
  obtains cid where "require_cashier g x = Inr cid"
    "players g' = AList.delete cid (players g)" "ledger g' = AList.delete cid (ledger g)"
    "prizes g' = prizes g" "pot g' = pot g" "broadcasts g' = Suc (broadcasts g)" "r = Ok"
  using assms
  by (auto simp: cashier_logout_def Let_def split: sum.splits)

lemma players_remove_all:
  "players (remove_all uids g) = filter (\<lambda>(u, p). u \<notin> set uids) (players g)"
  by (induction uids arbitrary: g) (auto simp: AList.delete_eq intro: filter_cong)

lemma ledger_remove_all:
  "ledger (remove_all uids g) = filter (\<lambda>(u, l). u \<notin> set uids) (ledger g)"
  by (induction uids arbitrary: g) (auto simp: AList.delete_eq intro: filter_cong)

lemma map_entry_absent: "map_of al k = None \<Longrightarrow> AList.map_entry k f al = al"
  by (induction al) auto

lemma cashier_reset_players_ok:
  assumes "cashier_reset_players g clk x = (Inr r, g')"
  obtains cid rest where "require_cashier g x = Inr cid"
    "rest = filter (\<lambda>(u, p). u \<notin> fst ` {(u, p) \<in> set (players g). role p = ''giocatore''})
              (players g)"
    "players g' = AList.map_entry cid (\<lambda>p. p\<lparr>saldo := 0\<rparr>) rest"
    "ledger g' =
       (let l = filter (\<lambda>(u, l). u \<notin> fst ` {(u, p) \<in> set (players g). role p = ''giocatore''})
                  (ledger g)
        in if map_of rest cid = None then l else AList.update cid [] l)"
    "prizes g' = []" "pot g' = 0" "broadcasts g' = Suc (broadcasts g)" "r = Ok"
proof -
  from assms obtain cid where c: "require_cashier g x = Inr cid"
    by (auto simp: cashier_reset_players_def split: sum.splits)
  have s: "set (map fst (filter (\<lambda>(uid, p). role p = ''giocatore'') (players g)))
        = fst ` {(u, p) \<in> set (players g). role p = ''giocatore''}"
    by auto
  show ?thesis
    using assms c
    by (intro that[of cid])
       (auto simp: cashier_reset_players_def Let_def players_remove_all ledger_remove_all s
             map_entry_absent simp del: set_map set_filter split: option.splits)
qed

lemma handle_fail: "handle g clk req = (Inl e, g') \<Longrightarrow> g' = g"
  by (cases req)
     (auto dest: join_fail player_play_fail cashier_credit_fail cashier_add_prize_fail
        cashier_assign_prize_fail cashier_reset_players_fail cashier_logout_fail)

lemma view_fields [simp]:
  "players (snd (public_state_for g v)) = players g"
  "prizes (snd (public_state_for g v)) = prizes g"
  "pot (snd (public_state_for g v)) = pot g"
  "log (snd (public_state_for g v)) = log g"
  "broadcasts (snd (public_state_for g v)) = broadcasts g"
  by (simp_all add: public_state_snd)

section \<open>The session, evaluated\<close>

lemma reachable_run: "reachable g \<Longrightarrow> reachable (run g rs)"
proof (induction rs arbitrary: g)
  case Nil
  then show ?case by simp
next
  case (Cons a rs)
  obtain clk req where a: "a = (clk, req)" by (cases a)
  from Cons.prems have "reachable (snd (handle g clk req))" by (rule reachable.request)
  then show ?case using a by (simp add: Cons.IH)
qed

lemma reachable_after: "reachable (after n)"
  unfolding after_def by (rule reachable_run) (rule reachable.start)

lemma after_4:
  "players (after 4) =
     [(''0000000000000001'', \<lparr>name = ''Carla'', role = ''cassiere'', saldo = - 50\<rparr>),
      (''0000000000000002'', \<lparr>name = ''Piero'', role = ''giocatore'', saldo = 20\<rparr>)]"
  "prizes (after 4) = []"
  "pot (after 4) = 30"
  by code_simp+

lemma after_5:
  "players (after 5) =
     [(''0000000000000001'', \<lparr>name = ''Carla'', role = ''cassiere'', saldo = - 50\<rparr>),
      (''0000000000000002'', \<lparr>name = ''Piero'', role = ''giocatore'', saldo = 20\<rparr>)]"
  "prizes (after 5) =
     [\<lparr>prize_name = ''Tombola'', amount = 30, winner_id = None, paid = False,
       prize_ts = 1700000000\<rparr>]"
  "pot (after 5) = 30"
  "total_prizes_defined_unpaid (after 5) = 30"
  by code_simp+

lemma after_5_step:
  "cashier_add_prize (after 4) tick (Some ''0000000000000001'') (Some ''Tombola'') (Some 30)
     = (Inr Ok, after 5)"
  by code_simp

lemma after_4_play_21:
  "handle (after 4) tick (Play (Some ''0000000000000002'') (Some 21))
     = (Inl Importo_superiore_al_saldo, after 4)"
  by code_simp

lemma after_3:
  "players (after 3) =
     [(''0000000000000001'', \<lparr>name = ''Carla'', role = ''cassiere'', saldo = - 50\<rparr>),
      (''0000000000000002'', \<lparr>name = ''Piero'', role = ''giocatore'', saldo = 50\<rparr>)]"
  "ledger (after 3) =
     [(''0000000000000001'',
        [\<lparr>delta = - 50, note = ''Accredito a Piero'', ts = 1700000001\<rparr>]),
      (''0000000000000002'', [\<lparr>delta = 50, note = ''Accredito'', ts = 1700000000\<rparr>])]"
  "prizes (after 3) = []"
  "pot (after 3) = 0"
  by code_simp+

lemma after_6_step:
  "cashier_assign_prize (after 5) tick (Some ''0000000000000001'') (Some 0)
     (Some ''0000000000000002'') = (Inr Ok, after 6)"
  by code_simp

lemma after_6:
  "players (after 6) =
     [(''0000000000000001'', \<lparr>name = ''Carla'', role = ''cassiere'', saldo = - 50\<rparr>),
      (''0000000000000002'', \<lparr>name = ''Piero'', role = ''giocatore'', saldo = 50\<rparr>)]"
  "prizes (after 6) =
     [\<lparr>prize_name = ''Tombola'', amount = 30, winner_id = Some ''0000000000000002'',
       paid = True, prize_ts = 1700000000\<rparr>]"
  "pot (after 6) = 0"
  by code_simp+

lemma after_2:
  "players (after 2) =
     [(''0000000000000001'', \<lparr>name = ''Carla'', role = ''cassiere'', saldo = 0\<rparr>),
      (''0000000000000002'', \<lparr>name = ''Piero'', role = ''giocatore'', saldo = 0\<rparr>)]"
  "ledger (after 2) = [(''0000000000000001'', []), (''0000000000000002'', [])]"
  "prizes (after 2) = []"
  "pot (after 2) = 0"
  by code_simp+

lemma after_3_rejoin:
  "fst (join (after 3) tick (Some ''Dora'') (Some ''cassiere'') (Some ''4321'') 9)
     = Inr (Joined ''0000000000000001'' ''Dora'' ''cassiere'')"
  "players (snd (join (after 3) tick (Some ''Dora'') (Some ''cassiere'') (Some ''4321'') 9)) =
     [(''0000000000000001'', \<lparr>name = ''Dora'', role = ''cassiere'', saldo = - 50\<rparr>),
      (''0000000000000002'', \<lparr>name = ''Piero'', role = ''giocatore'', saldo = 50\<rparr>)]"
  "strip (get_str (Some ''Dora'') []) = ''Dora''"
  "strip (get_str (Some ''cassiere'') ''giocatore'') = ''cassiere''"
  "strip (get_str (Some ''4321'') []) = CASHIER_PIN"
  by code_simp+

lemma after_5_reset:
  "require_cashier (after 5) (Some ''0000000000000001'') = Inr ''0000000000000001''"
  "fst (cashier_reset_players (after 5) tick (Some ''0000000000000001'')) = Inr Ok"
  "players (snd (cashier_reset_players (after 5) tick (Some ''0000000000000001'')))
     = [(''0000000000000001'', \<lparr>name = ''Carla'', role = ''cassiere'', saldo = 0\<rparr>)]"
  "ledger (snd (cashier_reset_players (after 5) tick (Some ''0000000000000001'')))
     = [(''0000000000000001'', [])]"
  "prizes (snd (cashier_reset_players (after 5) tick (Some ''0000000000000001''))) = []"
  "pot (snd (cashier_reset_players (after 5) tick (Some ''0000000000000001''))) = 0"
  by code_simp+

lemma after_6_views:
  "map_option role (viewer_of (after 6) (Some ''0000000000000002'')) = Some ''giocatore''"
  "snap_players (fst (public_state_for (after 6) (Some ''0000000000000002''))) =
     [\<lparr>pub_id = ''0000000000000001'', pub_name = ''Carla'', pub_role = ''cassiere'',
        pub_saldo = None\<rparr>,
      \<lparr>pub_id = ''0000000000000002'', pub_name = ''Piero'', pub_role = ''giocatore'',
        pub_saldo = Some 50\<rparr>]"
  "snap_prizes (fst (public_state_for (after 6) (Some ''0000000000000002''))) = []"
  "viewer_of (after 6) None = None"
  "snap_players (fst (public_state_for (after 6) None)) =
     [\<lparr>pub_id = ''0000000000000001'', pub_name = ''Carla'', pub_role = ''cassiere'',
        pub_saldo = None\<rparr>,
      \<lparr>pub_id = ''0000000000000002'', pub_name = ''Piero'', pub_role = ''giocatore'',
        pub_saldo = None\<rparr>]"
  by code_simp+

section \<open>The pot is never negative\<close>

lemma pot_nonneg_handle: "0 \<le> pot g \<Longrightarrow> 0 \<le> pot (snd (handle g clk req))"
proof (cases "handle g clk req")
  case (Pair r g')
  assume p: "0 \<le> pot g"
  show ?thesis
  proof (cases r)
    case (Inl e)
    with Pair have "g' = g" by (auto dest: handle_fail)
    with p Pair show ?thesis by simp
  next
    case (Inr a)
    with Pair p show ?thesis
      by (cases req)
        (auto elim!: join_ok player_play_ok cashier_credit_ok cashier_add_prize_ok
           cashier_assign_prize_ok cashier_reset_players_ok cashier_logout_ok)
  qed
qed

text \<open>
  Claim C10. In every state reachable from the initial \<open>GAME\<close> through the handlers (and
  the projections computed for viewers) the pot is at least 0: it starts at 0,
  \<open>player_play\<close> adds an amount it has checked to be positive, \<open>cashier_assign_prize\<close>
  subtracts the prize's amount only after the check \<open>pot < amount\<close> has failed, and
  \<open>cashier_reset_players\<close> sets it to 0.
\<close>

theorem C10_pot_nonnegative: "reachable g \<Longrightarrow> 0 \<le> pot g"
  by (induction rule: reachable.induct) (simp_all add: GAME_def pot_nonneg_handle)

theorem C10_pot_nonnegative_witness: "reachable (after 4) \<and> pot (after 4) = 30 \<and> 0 \<le> pot (after 4)"
  using C10_pot_nonnegative [of "after 4"] reachable_after [of 4] after_4(3) by simp

section \<open>Escrow: unpaid prizes never exceed the pot\<close>

lemma unpaid_mark_paid:
  "i < length ps \<Longrightarrow> \<not> paid (ps ! i) \<Longrightarrow>
   sum_list (map amount (filter (\<lambda>p. \<not> paid p) (ps[i := (ps ! i)\<lparr>winner_id := w, paid := True\<rparr>])))
     = sum_list (map amount (filter (\<lambda>p. \<not> paid p) ps)) - amount (ps ! i)"
proof (induction ps arbitrary: i)
  case Nil
  then show ?case by simp
next
  case (Cons p ps)
  then show ?case by (cases i) auto
qed

lemma unpaid_handle:
  assumes "total_prizes_defined_unpaid g \<le> pot g"
  shows "total_prizes_defined_unpaid (snd (handle g clk req)) \<le> pot (snd (handle g clk req))"
proof (cases "handle g clk req")
  case (Pair r g')
  show ?thesis
  proof (cases r)
    case (Inl e)
    with Pair have "g' = g" by (auto dest: handle_fail)
    with assms Pair show ?thesis by simp
  next
    case (Inr a)
    with Pair assms show ?thesis
      by (cases req)
        (auto simp: total_prizes_defined_unpaid_def unpaid_mark_paid
           elim!: join_ok player_play_ok cashier_credit_ok cashier_add_prize_ok
           cashier_assign_prize_ok cashier_reset_players_ok cashier_logout_ok)
  qed
qed

lemma unpaid_view:
  "total_prizes_defined_unpaid (snd (public_state_for g v)) = total_prizes_defined_unpaid g"
  by (simp add: total_prizes_defined_unpaid_def)

lemma reachable_unpaid_le_pot: "reachable g \<Longrightarrow> total_prizes_defined_unpaid g \<le> pot g"
proof (induction rule: reachable.induct)
  case start
  show ?case by (simp add: GAME_def total_prizes_defined_unpaid_def)
next
  case (request g clk req)
  from request.IH show ?case by (rule unpaid_handle)
next
  case (view g viewer_id)
  then show ?case by (simp add: unpaid_view)
qed

text \<open>
  Claim C2. Right after every \<open>cashier_add_prize\<close> that succeeds, the amounts of the
  unpaid prizes sum to at most the pot (from any state). The inequality is preserved by
  every request, whatever the handler (\<open>join\<close>, \<open>player_play\<close>, \<open>cashier_credit\<close>,
  \<open>cashier_add_prize\<close>, \<open>cashier_assign_prize\<close>, \<open>cashier_reset_players\<close>,
  \<open>cashier_logout\<close>) and whether it succeeds or fails, although only
  \<open>cashier_add_prize\<close> checks it. So it holds in every reachable state.
\<close>

theorem C2_escrow_sufficiency:
  "(cashier_add_prize g clk x_user d_name d_amount = (Inr r, g')
      \<longrightarrow> total_prizes_defined_unpaid g' \<le> pot g')
   \<and> (total_prizes_defined_unpaid g \<le> pot g
      \<longrightarrow> total_prizes_defined_unpaid (snd (handle g clk req)) \<le> pot (snd (handle g clk req)))
   \<and> (reachable g \<longrightarrow> total_prizes_defined_unpaid g \<le> pot g)"
proof (intro conjI impI)
  assume "cashier_add_prize g clk x_user d_name d_amount = (Inr r, g')"
  then show "total_prizes_defined_unpaid g' \<le> pot g'"
    by (elim cashier_add_prize_ok) (simp add: total_prizes_defined_unpaid_def)
qed (simp_all add: unpaid_handle reachable_unpaid_le_pot)

theorem C2_escrow_sufficiency_witness:
  "cashier_add_prize (after 4) tick (Some ''0000000000000001'') (Some ''Tombola'') (Some 30)
     = (Inr Ok, after 5)
   \<and> total_prizes_defined_unpaid (after 5) = 30 \<and> pot (after 5) = 30
   \<and> reachable (after 5)
   \<and> total_prizes_defined_unpaid (snd (handle (after 5) tick
         (Assign_prize (Some ''0000000000000001'') (Some 0) (Some ''0000000000000002''))))
       \<le> pot (snd (handle (after 5) tick
         (Assign_prize (Some ''0000000000000001'') (Some 0) (Some ''0000000000000002''))))"
  using C2_escrow_sufficiency [of "after 4" tick "Some ''0000000000000001''" "Some ''Tombola''" "Some 30" Ok "after 5"]
    C2_escrow_sufficiency [of "after 5" tick _ _ _ _ _ "Assign_prize (Some ''0000000000000001'') (Some 0) (Some ''0000000000000002'')"]
    after_5_step after_5 reachable_after [of 5]
  by simp

section \<open>The pot always covers an unpaid prize\<close>

lemma amounts_handle:
  assumes "\<forall>p \<in> set (prizes g). 0 < amount p"
  shows "\<forall>p \<in> set (prizes (snd (handle g clk req))). 0 < amount p"
proof (cases "handle g clk req")
  case (Pair r g')
  show ?thesis
  proof (cases r)
    case (Inl e)
    with Pair have "g' = g" by (auto dest: handle_fail)
    with assms Pair show ?thesis by simp
  next
    case (Inr a)
    have upd: "\<forall>p \<in> set ((prizes g)[i := (prizes g ! i)\<lparr>winner_id := w, paid := True\<rparr>]). 0 < amount p"
      if "i < length (prizes g)" for i w
      using assms that by (auto simp: set_conv_nth nth_list_update)
    from Inr Pair assms show ?thesis
      by (cases req)
        (auto simp: upd simp del: 
           elim!: join_ok player_play_ok cashier_credit_ok cashier_add_prize_ok
           cashier_assign_prize_ok cashier_reset_players_ok cashier_logout_ok)
  qed
qed

lemma reachable_amounts: "reachable g \<Longrightarrow> \<forall>p \<in> set (prizes g). 0 < amount p"
proof (induction rule: reachable.induct)
  case start
  show ?case by (simp add: GAME_def)
next
  case (request g clk req)
  from request.IH show ?case by (rule amounts_handle)
next
  case (view g viewer_id)
  then show ?case by simp
qed

lemma unpaid_member_le:
  "\<forall>p \<in> set ps. 0 < amount p \<Longrightarrow> i < length ps \<Longrightarrow> \<not> paid (ps ! i) \<Longrightarrow>
   amount (ps ! i) \<le> sum_list (map amount (filter (\<lambda>p. \<not> paid p) ps))"
proof (induction ps arbitrary: i)
  case Nil
  then show ?case by simp
next
  case (Cons p ps)
  have nn: "0 \<le> sum_list (map amount (filter (\<lambda>p. \<not> paid p) ps))"
    using Cons.prems(1) by (intro sum_list_nonneg) (auto intro: less_imp_le)
  show ?case
  proof (cases i)
    case 0
    with Cons.prems nn show ?thesis by simp
  next
    case (Suc j)
    with Cons.prems have "amount (ps ! j) \<le> sum_list (map amount (filter (\<lambda>p. \<not> paid p) ps))"
      by (intro Cons.IH) auto
    with Suc Cons.prems(1) show ?thesis by auto
  qed
qed

lemma require_cashier_error:
  "require_cashier g x = Inl e \<Longrightarrow> e = Non_autorizzato \<or> e = Solo_cassiere"
  by (auto simp: require_cashier_def split: option.splits if_splits)

lemma assign_insufficient:
  assumes "cashier_assign_prize g clk x di dw = (Inl Montepremi_insufficiente, g')"
  shows "\<exists>i < length (prizes g). \<not> paid (prizes g ! i) \<and> pot g < amount (prizes g ! i)"
proof -
  from assms obtain idx where "\<not> idx < 0" "\<not> int (length (prizes g)) \<le> idx"
    "\<not> paid (prizes g ! nat idx)" "pot g < amount (prizes g ! nat idx)"
    by (auto simp: cashier_assign_prize_def Let_def dest: require_cashier_error
          split: sum.splits option.splits if_splits)
  moreover from this have "nat idx < length (prizes g)" by linarith
  ultimately show ?thesis by blast
qed

text \<open>
  Claim C3. In a reachable state every unpaid prize has an amount of at most the pot, so
  \<open>cashier_assign_prize\<close> never answers \<open>Montepremi_insufficiente\<close>: whenever a call
  gets past the checks of the index, of \<open>paid\<close> and of the winner, the check
  \<open>pot < amount\<close> fails and the prize is paid.
\<close>

theorem C3_pot_check_never_fires:
  assumes "reachable g"
  shows "(\<forall>i < length (prizes g). \<not> paid (prizes g ! i) \<longrightarrow> amount (prizes g ! i) \<le> pot g)
     \<and> fst (cashier_assign_prize g clk x_user d_index d_winner_id) \<noteq> Inl Montepremi_insufficiente"
proof -
  have le: "amount (prizes g ! i) \<le> pot g" if "i < length (prizes g)" "\<not> paid (prizes g ! i)" for i
  proof -
    have "amount (prizes g ! i) \<le> total_prizes_defined_unpaid g"
      unfolding total_prizes_defined_unpaid_def
      using reachable_amounts[OF assms] that by (rule unpaid_member_le)
    also have "\<dots> \<le> pot g" using assms by (rule reachable_unpaid_le_pot)
    finally show ?thesis .
  qed
  have "fst (cashier_assign_prize g clk x_user d_index d_winner_id) \<noteq> Inl Montepremi_insufficiente"
  proof
    assume "fst (cashier_assign_prize g clk x_user d_index d_winner_id) = Inl Montepremi_insufficiente"
    then obtain g' where
      "cashier_assign_prize g clk x_user d_index d_winner_id = (Inl Montepremi_insufficiente, g')"
      by (cases "cashier_assign_prize g clk x_user d_index d_winner_id") auto
    from assign_insufficient[OF this] le show False by force
  qed
  with le show ?thesis by blast
qed

theorem C3_pot_check_never_fires_witness:
  "reachable (after 5)
   \<and> \<not> paid (prizes (after 5) ! 0) \<and> amount (prizes (after 5) ! 0) = 30 \<and> pot (after 5) = 30
   \<and> fst (cashier_assign_prize (after 5) tick (Some ''0000000000000001'') (Some 0)
            (Some ''0000000000000002'')) = Inr Ok"
proof -
  have "fst (cashier_assign_prize (after 5) tick (Some ''0000000000000001'') (Some 0)
            (Some ''0000000000000002'')) = Inr Ok"
    by code_simp
  then show ?thesis
    using C3_pot_check_never_fires [OF reachable_after, of 5 tick "Some ''0000000000000001''" "Some 0" "Some ''0000000000000002''"]
      reachable_after [of 5] after_5 by simp
qed

section \<open>Failures change nothing\<close>


lemma map_fst_map_entry: "map fst (AList.map_entry k f al) = map fst al"
  by (induction al) auto

lemma require_player_Inr:
  "require_player g x = Inr uid \<longleftrightarrow>
     x = Some uid \<and> uid \<noteq> [] \<and> (\<exists>p. map_of (players g) uid = Some p \<and> role p = ''giocatore'')"
  by (auto simp: require_player_def split: option.splits)


lemma require_cashier_Inr:
  "require_cashier g x = Inr uid \<longleftrightarrow>
     x = Some uid \<and> uid \<noteq> [] \<and> (\<exists>p. map_of (players g) uid = Some p \<and> role p = ''cassiere'')"
  by (auto simp: require_cashier_def split: option.splits)

text \<open>
  Claim C7. A request that is answered with a failure leaves the whole state as it was:
  players and balances, ledgers, prizes, pot, activity log, and the number of broadcasts
  (so none was made). This holds for all seven handlers. In particular a
  \<open>player_play\<close> of more than the balance changes neither the balance nor the pot.
\<close>

theorem C7_failure_changes_nothing:
  "fst (handle g clk req) = Inl e \<Longrightarrow> snd (handle g clk req) = g"
  by (cases "handle g clk req") (auto dest: handle_fail)

theorem C7_failure_changes_nothing_witness:
  "fst (handle (after 4) tick (Play (Some ''0000000000000002'') (Some 21)))
     = Inl Importo_superiore_al_saldo
   \<and> snd (handle (after 4) tick (Play (Some ''0000000000000002'') (Some 21))) = after 4"
  using C7_failure_changes_nothing
          [of "after 4" tick "Play (Some ''0000000000000002'') (Some 21)" Importo_superiore_al_saldo]
    after_4_play_21
  by simp

section \<open>Playing\<close>





section \<open>Assigning a prize twice\<close>

lemma assign_paid:
  "require_cashier g x = Inr cid \<Longrightarrow> 0 \<le> idx \<Longrightarrow> idx < int (length (prizes g)) \<Longrightarrow>
   paid (prizes g ! nat idx) \<Longrightarrow>
   cashier_assign_prize g clk x (Some idx) dw = (Inl Premio_gia_pagato, g)"
  by (simp add: cashier_assign_prize_def Let_def)

lemma assign_after_assign:
  assumes "cashier_assign_prize g clk x di dw = (Inr r, g')"
  shows "cashier_assign_prize g' clk' x di dw' = (Inl Premio_gia_pagato, g')"
    and "\<exists>e. cashier_assign_prize g' clk' x' di dw' = (Inl e, g')"
proof -
  from assms obtain cid idx w p where c: "require_cashier g x = Inr cid" and di: "di = Some idx"
    and i: "0 \<le> idx" "nat idx < length (prizes g)"
    and w: "map_of (players g) w = Some p" "role p = ''giocatore''"
    and pl: "players g' = AList.map_entry w (\<lambda>p. p\<lparr>saldo := saldo p + amount (prizes g ! nat idx)\<rparr>) (players g)"
    and pr: "prizes g' = (prizes g)[nat idx := (prizes g ! nat idx)\<lparr>winner_id := Some w, paid := True\<rparr>]"
    by (elim cashier_assign_prize_ok) 
  from i pr have paid: "paid (prizes g' ! nat idx)" and len: "idx < int (length (prizes g'))"
    by auto
  from c w pl have c': "require_cashier g' x = Inr cid"
    by (auto simp: require_cashier_Inr map_of_map_entry)
  from c' i(1) len paid show "cashier_assign_prize g' clk' x di dw' = (Inl Premio_gia_pagato, g')"
    unfolding di by (rule assign_paid)
  show "\<exists>e. cashier_assign_prize g' clk' x' di dw' = (Inl e, g')"
  proof (cases "require_cashier g' x'")
    case (Inl e)
    then show ?thesis by (simp add: cashier_assign_prize_def)
  next
    case (Inr c2)
    from this i(1) len paid have "cashier_assign_prize g' clk' x' (Some idx) dw' = (Inl Premio_gia_pagato, g')"
      by (rule assign_paid)
    then show ?thesis using di by blast
  qed
qed

text \<open>
  Claim C6. A prize cannot be assigned twice. When the cashier calls
  \<open>cashier_assign_prize\<close> on an existing prize that has \<open>paid = True\<close>, the answer is
  \<open>Premio_gia_pagato\<close> (AlreadyPaid) and the state is unchanged: no balance, pot,
  prize, ledger or log entry moves, and nothing is broadcast. So after an assignment has
  succeeded, a second call on the same index by the same cashier gets
  \<open>Premio_gia_pagato\<close>, and a call by anyone fails, with the state unchanged.
\<close>

theorem C6_no_second_assignment:
  "(require_cashier g x_user = Inr cid \<and> 0 \<le> idx \<and> idx < int (length (prizes g))
      \<and> paid (prizes g ! nat idx)
      \<longrightarrow> cashier_assign_prize g clk x_user (Some idx) d_winner_id = (Inl Premio_gia_pagato, g))
   \<and> (cashier_assign_prize g clk x_user d_index d_winner_id = (Inr r, g')
      \<longrightarrow> cashier_assign_prize g' clk' x_user d_index d_winner_id' = (Inl Premio_gia_pagato, g')
        \<and> (\<exists>e. cashier_assign_prize g' clk' x_user' d_index d_winner_id' = (Inl e, g')))"
proof (intro conjI impI)
  assume "require_cashier g x_user = Inr cid \<and> 0 \<le> idx \<and> idx < int (length (prizes g))
      \<and> paid (prizes g ! nat idx)"
  then show "cashier_assign_prize g clk x_user (Some idx) d_winner_id = (Inl Premio_gia_pagato, g)"
    by (intro assign_paid[of g x_user cid]) auto
next
  assume a: "cashier_assign_prize g clk x_user d_index d_winner_id = (Inr r, g')"
  from a show "cashier_assign_prize g' clk' x_user d_index d_winner_id' = (Inl Premio_gia_pagato, g')"
    by (rule assign_after_assign(1))
  from a show "\<exists>e. cashier_assign_prize g' clk' x_user' d_index d_winner_id' = (Inl e, g')"
    by (rule assign_after_assign(2))
qed

theorem C6_no_second_assignment_witness:
  "cashier_assign_prize (after 5) tick (Some ''0000000000000001'') (Some 0)
     (Some ''0000000000000002'') = (Inr Ok, after 6)
   \<and> paid (prizes (after 6) ! 0)
   \<and> cashier_assign_prize (after 6) tick (Some ''0000000000000001'') (Some 0)
        (Some ''0000000000000002'') = (Inl Premio_gia_pagato, after 6)"
  using C6_no_second_assignment
          [where g = "after 5" and x_user = "Some ''0000000000000001''" and clk = tick
             and d_index = "Some 0" and d_winner_id = "Some ''0000000000000002''"
             and r = Ok and g' = "after 6" and clk' = tick
             and d_winner_id' = "Some ''0000000000000002''"]
    after_6_step after_6
  by simp

section \<open>Conservation of value\<close>

lemma sum_saldo_map_entry:
  "map_of al k = Some p \<Longrightarrow>
   sum_list (map (\<lambda>(uid, p). saldo p) (AList.map_entry k f al))
     = sum_list (map (\<lambda>(uid, p). saldo p) al) - saldo p + saldo (f p)"
  by (induction al) (auto split: if_splits)

lemma sum_saldo_players_map_entry:
  "map_of al k = Some p \<Longrightarrow> role (f p) = role p \<Longrightarrow>
   sum_list (map (\<lambda>(uid, p). saldo p)
       (filter (\<lambda>(uid, p). role p = ''giocatore'') (AList.map_entry k f al)))
     = sum_list (map (\<lambda>(uid, p). saldo p) (filter (\<lambda>(uid, p). role p = ''giocatore'') al))
       + (if role p = ''giocatore'' then saldo (f p) - saldo p else 0)"
  by (induction al) (auto split: if_splits)

lemma transfer_step:
  assumes "is_transfer req"
  shows "total_value (snd (handle g clk req)) = total_value g"
    and "players_value (snd (handle g clk req)) = players_value g + credited_by g clk req"
proof -
  obtain r g' where h: "handle g clk req = (r, g')" by (cases "handle g clk req")
  have "total_value g' = total_value g \<and> players_value g' = players_value g + credited_by g clk req"
  proof (cases r)
    case (Inl e)
    with h have "g' = g" by (auto dest: handle_fail)
    moreover from h Inl have "credited_by g clk req = 0" by (cases req) (auto split: option.splits)
    ultimately show ?thesis by simp
  next
    case (Inr a)
    show ?thesis
    proof (cases req)
      case (Play x da)
      with h Inr have pp: "player_play g clk x da = (Inr a, g')" by simp
      then show ?thesis
      proof (rule player_play_ok)
        fix pid amt
        assume rp: "require_player g x = Inr pid"
          and pl: "players g' = AList.map_entry pid (\<lambda>p. p\<lparr>saldo := saldo_of g pid - amt\<rparr>) (players g)"
          and pot: "pot g' = pot g + amt"
        from rp obtain p where p: "map_of (players g) pid = Some p" "role p = ''giocatore''"
          by (auto simp: require_player_Inr)
        then have "saldo_of g pid = saldo p" by (simp add: saldo_of_def)
        with p pl pot Play show ?thesis
          by (simp add: total_value_def players_value_def sum_saldo_map_entry
                sum_saldo_players_map_entry)
      qed
    next
      case (Credit x dp da)
      with h Inr have cc: "cashier_credit g clk x dp da = (Inr a, g')" by simp
      then show ?thesis
      proof (rule cashier_credit_ok)
        fix cid pid p amt
        assume rc: "require_cashier g x = Inr cid"
          and p: "map_of (players g) pid = Some p" "role p = ''giocatore''"
          and da: "da = Some amt"
          and pl: "players g' = AList.map_entry cid (\<lambda>p. p\<lparr>saldo := saldo p - amt\<rparr>)
                    (AList.map_entry pid (\<lambda>p. p\<lparr>saldo := saldo p + amt\<rparr>) (players g))"
          and pot: "pot g' = pot g"
        from rc obtain c where c: "map_of (players g) cid = Some c" "role c = ''cassiere''"
          by (auto simp: require_cashier_Inr)
        with p have ne: "cid \<noteq> pid" by auto
        let ?al = "AList.map_entry pid (\<lambda>p. p\<lparr>saldo := saldo p + amt\<rparr>) (players g)"
        from c ne have c': "map_of ?al cid = Some c" by (simp add: map_of_map_entry)
        from cc da have cb: "credited_by g clk req = amt" using Credit by simp
        from p c c' pl pot cb show ?thesis
          by (simp add: total_value_def players_value_def sum_saldo_map_entry
                sum_saldo_players_map_entry)
      qed
    next
      case (Assign_prize x di dw)
      with h Inr have ca: "cashier_assign_prize g clk x di dw = (Inr a, g')" by simp
      then show ?thesis
      proof (rule cashier_assign_prize_ok)
        fix idx w p
        assume p: "map_of (players g) w = Some p" "role p = ''giocatore''"
          and pl: "players g' = AList.map_entry w (\<lambda>p. p\<lparr>saldo := saldo p + amount (prizes g ! nat idx)\<rparr>) (players g)"
          and pot: "pot g' = pot g - amount (prizes g ! nat idx)"
        with Assign_prize show ?thesis
          by (simp add: total_value_def players_value_def sum_saldo_map_entry
                sum_saldo_players_map_entry)
      qed
    qed (use assms in simp_all)
  qed
  with h show "total_value (snd (handle g clk req)) = total_value g"
    and "players_value (snd (handle g clk req)) = players_value g + credited_by g clk req"
    by simp_all
qed

text \<open>
  Claim C1, as amended. Over any sequence of \<open>player_play\<close>, \<open>cashier_credit\<close> and
  \<open>cashier_assign_prize\<close> requests, from any state, the sum of all participants'
  balances plus the pot does not change (a credit takes from the cashier's balance what
  it gives to the player's); the sum of the balances of the participants with role
  \<open>giocatore\<close> plus the pot changes by exactly the amounts credited by the
  \<open>cashier_credit\<close> requests that succeed, and so is unchanged by \<open>player_play\<close> and
  \<open>cashier_assign_prize\<close>.
\<close>

theorem C1_value_conservation:
  "list_all (\<lambda>(clk, req). is_transfer req) rs \<Longrightarrow>
   total_value (run g rs) = total_value g
   \<and> players_value (run g rs) = players_value g + credited g rs"
proof (induction rs arbitrary: g)
  case Nil
  show ?case by simp
next
  case (Cons a rs)
  obtain clk req where a: "a = (clk, req)" by (cases a)
  with Cons.prems have t: "is_transfer req" and rest: "list_all (\<lambda>(clk, req). is_transfer req) rs"
    by simp_all
  from Cons.IH[OF rest, of "snd (handle g clk req)"] transfer_step[OF t, of g clk] a
  show ?case by simp
qed

theorem C1_value_conservation_witness:
  "list_all (\<lambda>(clk, req). is_transfer req) (take 2 (drop 2 scenario))
   \<and> run (after 2) (take 2 (drop 2 scenario)) = after 4
   \<and> credited (after 2) (take 2 (drop 2 scenario)) = 50
   \<and> total_value (after 2) = 0 \<and> total_value (after 4) = 0
   \<and> players_value (after 2) = 0 \<and> players_value (after 4) = 50"
proof -
  have 1: "list_all (\<lambda>(clk, req). is_transfer req) (take 2 (drop 2 scenario))" by code_simp
  have 2: "run (after 2) (take 2 (drop 2 scenario)) = after 4" by code_simp
  have 3: "credited (after 2) (take 2 (drop 2 scenario)) = 50" by code_simp
  have 4: "total_value (after 2) = 0" "players_value (after 2) = 0" by code_simp+
  from C1_value_conservation [OF 1, of "after 2"] 1 2 3 4 show ?thesis by simp
qed

text \<open>
  Claim C1 as stated has the sum of all participants' balances plus the pot grow by the
  credited amount under a credit. The cashier is a participant, and its balance goes
  down by what the player's goes up: after the credit of 50 in the session the sum is
  still 0.
\<close>

theorem C1_counterexample:
  "reachable (after 2)
   \<and> fst (handle (after 2) tick
          (Credit (Some ''0000000000000001'') (Some ''0000000000000002'') (Some 50))) = Inr Ok
   \<and> total_value (after 2) = 0
   \<and> total_value (snd (handle (after 2) tick
          (Credit (Some ''0000000000000001'') (Some ''0000000000000002'') (Some 50)))) = 0
   \<and> total_value (snd (handle (after 2) tick
          (Credit (Some ''0000000000000001'') (Some ''0000000000000002'') (Some 50))))
       \<noteq> total_value (after 2) + 50"
proof -
  have "fst (handle (after 2) tick
          (Credit (Some ''0000000000000001'') (Some ''0000000000000002'') (Some 50))) = Inr Ok
   \<and> total_value (after 2) = 0
   \<and> total_value (snd (handle (after 2) tick
          (Credit (Some ''0000000000000001'') (Some ''0000000000000002'') (Some 50)))) = 0
   \<and> total_value (snd (handle (after 2) tick
          (Credit (Some ''0000000000000001'') (Some ''0000000000000002'') (Some 50))))
       \<noteq> total_value (after 2) + 50"
    by code_simp
  with reachable_after [of 2] show ?thesis by simp
qed

section \<open>The registry stays well formed\<close>

lemma set_map_entry_role:
  "(\<And>p. role (f p) = role p) \<Longrightarrow> (u, q) \<in> set (AList.map_entry k f al) \<Longrightarrow>
   \<exists>p. (u, p) \<in> set al \<and> role q = role p"
  by (induction al) (auto split: if_splits)

lemma count_role_map_entry:
  "(\<And>p. role (f p) = role p) \<Longrightarrow>
   length (filter (\<lambda>(uid, p). role p = r) (AList.map_entry k f al)) =
   length (filter (\<lambda>(uid, p). role p = r) al)"
  by (induction al) auto

lemma keys_update: "set (map fst (AList.update k v al)) = insert k (set (map fst al))"
  using dom_update[of k v al] by simp

lemma keys_filter_notin:
  "set (map fst (filter (\<lambda>(u, p). u \<notin> R) al)) = set (map fst al) - R"
  by (induction al) auto

lemma ensure_ledger_id: "uid \<in> set (map fst (ledger g)) \<Longrightarrow> ensure_ledger uid g = g"
  by (cases "map_of (ledger g) uid") (auto simp: ensure_ledger_def map_of_eq_None_iff)


lemma players_ok_map_entry:
  assumes "\<And>p. role (f p) = role p" "players_ok al"
  shows "players_ok (AList.map_entry k f al)"
  using assms
  unfolding players_ok_def
  by (auto simp: map_fst_map_entry count_role_map_entry
        dest!: set_map_entry_role[where f = f, rotated])

lemma players_ok_filter: "players_ok al \<Longrightarrow> players_ok (filter P al)"
proof -
  have "length (filter Q (filter P al)) \<le> length (filter Q al)" for Q :: "string \<times> player \<Rightarrow> bool"
    by (induction al) auto
  moreover assume "players_ok al"
  ultimately show ?thesis
    unfolding players_ok_def
    by (auto simp: distinct_map_filter intro: order_trans)
qed

lemma players_ok_delete: "players_ok al \<Longrightarrow> players_ok (AList.delete k al)"
  by (simp add: AList.delete_eq players_ok_filter)

lemma set_update_subset: "set (AList.update k v al) \<subseteq> insert (k, v) (set al)"
  by (induction al) auto

lemma count_update_other:
  "\<not> P (k, v) \<Longrightarrow> length (filter P (AList.update k v al)) \<le> length (filter P al)"
  by (induction al) auto

lemma count_update_none:
  "filter P al = [] \<Longrightarrow> length (filter P (AList.update k v al)) \<le> 1"
  by (induction al) (auto split: if_splits)

lemma players_ok_update_player:
  assumes "players_ok al" "k \<noteq> []" "role v = ''giocatore''"
  shows "players_ok (AList.update k v al)"
proof -
  have "length (filter (\<lambda>(uid, p). role p = ''cassiere'') (AList.update k v al))
          \<le> length (filter (\<lambda>(uid, p). role p = ''cassiere'') al)"
    using assms(3) by (intro count_update_other) simp
  with assms show ?thesis
    unfolding players_ok_def
    using set_update_subset[of k v al]
    by (auto simp: distinct_update keys_update simp del: set_map)
qed

lemma players_ok_update_cashier:
  assumes "players_ok al" "k \<noteq> []" "role v = ''cassiere''"
    "find (\<lambda>(uid, p). role p = ''cassiere'') al = None"
  shows "players_ok (AList.update k v al)"
proof -
  from assms(4) have "filter (\<lambda>(uid, p). role p = ''cassiere'') al = []"
    by (auto simp: find_None_iff filter_empty_conv)
  then have "length (filter (\<lambda>(uid, p). role p = ''cassiere'') (AList.update k v al)) \<le> 1"
    by (rule count_update_none)
  with assms show ?thesis
    unfolding players_ok_def
    using set_update_subset[of k v al]
    by (auto simp: distinct_update keys_update simp del: set_map)
qed

lemma token_hex_nonempty: "token_hex 8 rnd \<noteq> []"
proof -
  have "length (hex_digits k v) = k" for k v
    by (induction k arbitrary: v) auto
  then have "length (token_hex 8 rnd) = 16" by (simp add: token_hex_def)
  then show ?thesis by auto
qed

lemma find_key_in: "find P al = Some (k, v) \<Longrightarrow> k \<in> set (map fst al)"
  by (induction al) (auto split: if_splits)

lemma keys_ledger_ensure: "set (map fst (ledger (ensure_ledger uid g))) = insert uid (set (map fst (ledger g)))"
proof (cases "map_of (ledger g) uid")
  case None
  then show ?thesis by (simp add: ledger_ensure_ledger keys_update del: set_map)
next
  case (Some l)
  then have "uid \<in> set (map fst (ledger g))" by (force dest: map_of_SomeD)
  with Some show ?thesis by (auto simp: ledger_ensure_ledger)
qed

lemma keys_ledger_add:
  "set (map fst (ledger (add_ledger_delta uid d n t g))) = insert uid (set (map fst (ledger g)))"
  by (simp add: ledger_add_ledger_delta map_fst_map_entry keys_ledger_ensure del: set_map)

lemma well_formed_handle:
  assumes wf: "well_formed g"
  shows "well_formed (snd (handle g clk req))"
proof -
  obtain r g' where h: "handle g clk req = (r, g')" by (cases "handle g clk req")
  from wf have ok: "players_ok (players g)"
    and led: "set (map fst (players g)) \<subseteq> set (map fst (ledger g))"
    by (simp_all add: well_formed_def)
  have "well_formed g'"
  proof (cases r)
    case (Inl e)
    with h have "g' = g" by (auto dest: handle_fail)
    with wf show ?thesis by simp
  next
    case (Inr a)
    show ?thesis
    proof (cases req)
      case (Join dn dr dp rnd)
      with h Inr have "join g clk dn dr dp rnd = (Inr a, g')" by simp
      then show ?thesis
      proof (cases rule: join_ok)
        case (rename existing)
        with ok led show ?thesis
          by (simp add: well_formed_def players_ok_map_entry map_fst_map_entry del: set_map)
      next
        case (new rl)
        have "players_ok (players g')"
        proof (cases "rl = ''cassiere''")
          case True
          from new(5)[OF True] ok have "find (\<lambda>(uid, p). role p = ''cassiere'') (players g) = None"
            by (auto simp: get_cashier_id_def players_ok_def dest: find_key_in)
          with True ok new(6) show ?thesis
            by (simp add: players_ok_update_cashier token_hex_nonempty)
        next
          case False
          with new(3) ok new(6) show ?thesis
            by (simp add: players_ok_update_player token_hex_nonempty)
        qed
        moreover have "set (map fst (players g')) \<subseteq> set (map fst (ledger g'))"
          using led new(6,7)
          by (auto simp: keys_ledger_ensure keys_update simp del: set_map)
        ultimately show ?thesis by (simp add: well_formed_def)
      qed
    next
      case (Play x da)
      with h Inr have "player_play g clk x da = (Inr a, g')" by simp
      then show ?thesis
        using ok led
        by (elim player_play_ok)
           (auto simp: well_formed_def players_ok_map_entry map_fst_map_entry keys_ledger_add
              simp del: set_map)
    next
      case (Credit x dp da)
      with h Inr have cc: "cashier_credit g clk x dp da = (Inr a, g')" by simp
      have ne: "set (map fst (ledger g')) \<supseteq> set (map fst (ledger g))"
        using cc by (auto simp: cashier_credit_def Let_def keys_ledger_add
            split: sum.splits option.splits if_splits simp del: set_map)
      from cc show ?thesis
        using ok led ne
        by (elim cashier_credit_ok)
           (auto simp: well_formed_def players_ok_map_entry map_fst_map_entry 
              simp del: set_map)
    next
      case (Add_prize x dn da)
      with h Inr have "cashier_add_prize g clk x dn da = (Inr a, g')" by simp
      then show ?thesis
        using ok led by (elim cashier_add_prize_ok) (simp add: well_formed_def)
    next
      case (Assign_prize x di dw)
      with h Inr have "cashier_assign_prize g clk x di dw = (Inr a, g')" by simp
      then show ?thesis
        using ok led
        by (elim cashier_assign_prize_ok)
           (auto simp: well_formed_def players_ok_map_entry map_fst_map_entry keys_ledger_add
              simp del: set_map)
    next
      case (Reset_players x)
      with h Inr have "cashier_reset_players g clk x = (Inr a, g')" by simp
      then show ?thesis
      proof (rule cashier_reset_players_ok)
        fix cid rest
        assume rest: "rest = filter (\<lambda>(u, p). u \<notin> fst ` {(u, p) \<in> set (players g). role p = ''giocatore''})
              (players g)"
          and pl: "players g' = AList.map_entry cid (\<lambda>p. p\<lparr>saldo := 0\<rparr>) rest"
          and le: "ledger g' =
       (let l = filter (\<lambda>(u, l). u \<notin> fst ` {(u, p) \<in> set (players g). role p = ''giocatore''})
                  (ledger g)
        in if map_of rest cid = None then l else AList.update cid [] l)"
        from ok rest pl have "players_ok (players g')"
          by (simp add: players_ok_map_entry players_ok_filter)
        moreover have "set (map fst (players g')) \<subseteq> set (map fst (ledger g'))"
        proof
          fix u assume "u \<in> set (map fst (players g'))"
          with pl rest have u: "u \<in> set (map fst (players g))"
            "u \<notin> fst ` {(u, p) \<in> set (players g). role p = ''giocatore''}"
            by (simp_all add: map_fst_map_entry keys_filter_notin del: set_map)
          with led have "u \<in> set (map fst (ledger g))" by blast
          with u(2) have "u \<in> set (map fst (filter (\<lambda>(u, l). u \<notin> fst ` {(u, p) \<in> set (players g). role p = ''giocatore''})
                  (ledger g)))"
            by (simp add: keys_filter_notin del: set_map)
          then show "u \<in> set (map fst (ledger g'))"
            unfolding le Let_def by (simp add: keys_update del: set_map)
        qed
        ultimately show ?thesis by (simp add: well_formed_def)
      qed
    next
      case (Logout x)
      with h Inr have "cashier_logout g clk x = (Inr a, g')" by simp
      then show ?thesis
        using ok led
        by (elim cashier_logout_ok)
           (auto simp: well_formed_def players_ok_delete delete_keys simp del: set_map)
    qed
  qed
  with h show ?thesis by simp
qed

lemma view_unchanged:
  assumes "well_formed g"
  shows "snd (public_state_for g v) = g"
proof -
  have "ensure_ledger u g = g" if "map_of (players g) u = Some p" for u p
  proof -
    from that have "u \<in> set (map fst (players g))" by (force dest: map_of_SomeD)
    with assms have "u \<in> set (map fst (ledger g))" unfolding well_formed_def by blast
    then show ?thesis by (rule ensure_ledger_id)
  qed
  then show ?thesis
    unfolding public_state_snd my_history_public_for_def
    by (auto simp: Let_def split: option.splits)
qed

lemma reachable_well_formed: "reachable g \<Longrightarrow> well_formed g"
proof (induction rule: reachable.induct)
  case start
  show ?case by (simp add: GAME_def well_formed_def players_ok_def)
next
  case (request g clk req)
  from request.IH show ?case by (rule well_formed_handle)
next
  case (view g viewer_id)
  then show ?case by (simp add: view_unchanged)
qed

section \<open>One cashier\<close>

lemma find_unique:
  "distinct (map fst al) \<Longrightarrow> length (filter P al) \<le> 1 \<Longrightarrow> map_of al k = Some p \<Longrightarrow>
   P (k, p) \<Longrightarrow> find P al = Some (k, p)"
proof (induction al)
  case Nil
  then show ?case by simp
next
  case (Cons a al)
  show ?case
  proof (cases "fst a = k")
    case True
    with Cons.prems show ?thesis by (cases a) auto
  next
    case False
    with Cons.prems have in_al: "map_of al k = Some p" by (cases a) auto
    then have "(k, p) \<in> set al" by (rule map_of_SomeD)
    with Cons.prems(4) have ne: "filter P al \<noteq> []" by (auto simp: filter_empty_conv)
    with Cons.prems(2) have "\<not> P a" by (cases "filter P al") (auto split: if_splits)
    moreover from Cons.prems this have "find P al = Some (k, p)"
      using in_al by (intro Cons.IH) auto
    ultimately show ?thesis by simp
  qed
qed

lemma cashier_found:
  assumes "well_formed g" "map_of (players g) cid = Some p" "role p = ''cassiere''"
  shows "get_cashier_id g = Some cid" and "cid \<noteq> []"
proof -
  from assms(1) have d: "distinct (map fst (players g))"
    and one: "length (filter (\<lambda>(uid, p). role p = ''cassiere'') (players g)) \<le> 1"
    and ne: "[] \<notin> set (map fst (players g))"
    by (simp_all add: well_formed_def players_ok_def)
  from d one assms(2) have "find (\<lambda>(uid, p). role p = ''cassiere'') (players g) = Some (cid, p)"
    by (rule find_unique) (simp add: assms(3))
  then show "get_cashier_id g = Some cid" by (simp add: get_cashier_id_def)
  from assms(2) have "cid \<in> set (map fst (players g))" by (force dest: map_of_SomeD)
  with ne show "cid \<noteq> []" by blast
qed

text \<open>
  Claim C4. In every reachable state at most one participant has role \<open>cassiere\<close>.
  When a cashier exists, a \<open>join\<close> with a name, role \<open>cassiere\<close> and the right PIN
  returns the id of that cashier with the new name and the role; it only renames that
  participant: the list of ids is as before (nobody is added), the cashier's balance and
  role and every other participant are as before, and so are the ledgers, the prizes
  and the pot.
\<close>

theorem C4_single_cashier:
  "reachable g \<Longrightarrow>
   length (filter (\<lambda>(uid, p). role p = ''cassiere'') (players g)) \<le> 1
   \<and> (map_of (players g) cid = Some p \<and> role p = ''cassiere''
        \<and> strip (get_str d_name []) \<noteq> []
        \<and> strip (get_str d_role ''giocatore'') = ''cassiere''
        \<and> strip (get_str d_pin []) = CASHIER_PIN
      \<longrightarrow> (\<exists>g'. join g clk d_name d_role d_pin rnd
                  = (Inr (Joined cid (strip (get_str d_name [])) ''cassiere''), g')
             \<and> map_of (players g') = (map_of (players g))(cid \<mapsto> p\<lparr>name := strip (get_str d_name [])\<rparr>)
             \<and> map fst (players g') = map fst (players g)
             \<and> ledger g' = ledger g \<and> prizes g' = prizes g \<and> pot g' = pot g))"
proof (intro conjI impI)
  assume r: "reachable g"
  then have wf: "well_formed g" by (rule reachable_well_formed)
  then show "length (filter (\<lambda>(uid, p). role p = ''cassiere'') (players g)) \<le> 1"
    by (simp add: well_formed_def players_ok_def)
  assume a: "map_of (players g) cid = Some p \<and> role p = ''cassiere''
        \<and> strip (get_str d_name []) \<noteq> []
        \<and> strip (get_str d_role ''giocatore'') = ''cassiere''
        \<and> strip (get_str d_pin []) = CASHIER_PIN"
  with cashier_found[OF wf, of cid p] have c: "get_cashier_id g = Some cid" "cid \<noteq> []"
    by simp_all
  obtain r' g' where j: "join g clk d_name d_role d_pin rnd = (r', g')"
    by (cases "join g clk d_name d_role d_pin rnd")
  with a c have r': "r' = Inr (Joined cid (strip (get_str d_name [])) ''cassiere'')"
    by (auto simp: join_def Let_def)
  from j r' have "join g clk d_name d_role d_pin rnd
      = (Inr (Joined cid (strip (get_str d_name [])) ''cassiere''), g')" by simp
  moreover have
    "map_of (players g') = (map_of (players g))(cid \<mapsto> p\<lparr>name := strip (get_str d_name [])\<rparr>)
     \<and> map fst (players g') = map fst (players g)
     \<and> ledger g' = ledger g \<and> prizes g' = prizes g \<and> pot g' = pot g"
    using j[unfolded r']
  proof (cases rule: join_ok)
    case (rename existing)
    from rename(4) c(1) have "existing = cid" by simp
    with rename a show ?thesis
      by (simp add: map_of_map_entry map_fst_map_entry)
  next
    case (new rl)
    from new(2) a have "rl = ''cassiere''" by simp
    from new(5)[OF this] c show ?thesis by auto
  qed
  ultimately show "\<exists>g'. join g clk d_name d_role d_pin rnd
                  = (Inr (Joined cid (strip (get_str d_name [])) ''cassiere''), g')
             \<and> map_of (players g') = (map_of (players g))(cid \<mapsto> p\<lparr>name := strip (get_str d_name [])\<rparr>)
             \<and> map fst (players g') = map fst (players g)
             \<and> ledger g' = ledger g \<and> prizes g' = prizes g \<and> pot g' = pot g"
    by blast
qed

theorem C4_single_cashier_witness:
  "reachable (after 3)
   \<and> length (filter (\<lambda>(uid, p). role p = ''cassiere'') (players (after 3))) = 1
   \<and> fst (join (after 3) tick (Some ''Dora'') (Some ''cassiere'') (Some ''4321'') 9)
       = Inr (Joined ''0000000000000001'' ''Dora'' ''cassiere'')
   \<and> players (snd (join (after 3) tick (Some ''Dora'') (Some ''cassiere'') (Some ''4321'') 9)) =
       [(''0000000000000001'', \<lparr>name = ''Dora'', role = ''cassiere'', saldo = - 50\<rparr>),
        (''0000000000000002'', \<lparr>name = ''Piero'', role = ''giocatore'', saldo = 50\<rparr>)]
   \<and> ledger (snd (join (after 3) tick (Some ''Dora'') (Some ''cassiere'') (Some ''4321'') 9))
       = ledger (after 3)"
proof -
  have h: "map_of (players (after 3)) ''0000000000000001''
             = Some \<lparr>name = ''Carla'', role = ''cassiere'', saldo = - 50\<rparr>"
    by (simp add: after_3)
  from C4_single_cashier [OF reachable_after, of 3 "''0000000000000001''"
         "\<lparr>name = ''Carla'', role = ''cassiere'', saldo = - 50\<rparr>"
         "Some ''Dora''" "Some ''cassiere''" "Some ''4321''" tick 9] h after_3_rejoin(3-5)
  have "ledger (snd (join (after 3) tick (Some ''Dora'') (Some ''cassiere'') (Some ''4321'') 9))
       = ledger (after 3)"
    by (elim conjE impE exE) simp_all
  then show ?thesis
    using reachable_after [of 3] after_3_rejoin(1,2) by (simp add: after_3)
qed

section \<open>Reset\<close>

lemma rest_is_cashiers:
  assumes "players_ok al"
  shows "filter (\<lambda>(u, p). u \<notin> fst ` {(u, p) \<in> set al. role p = ''giocatore''}) al
       = filter (\<lambda>(u, p). role p = ''cassiere'') al"
proof (rule filter_cong[OF refl])
  fix x assume x: "x \<in> set al"
  obtain u q where uq: "x = (u, q)" by (cases x)
  from assms have d: "distinct (map fst al)"
    and roles: "\<forall>(uid, p) \<in> set al. role p = ''giocatore'' \<or> role p = ''cassiere''"
    by (simp_all add: players_ok_def)
  have "u \<in> fst ` {(u, p) \<in> set al. role p = ''giocatore''} \<longleftrightarrow> role q = ''giocatore''"
  proof
    assume "u \<in> fst ` {(u, p) \<in> set al. role p = ''giocatore''}"
    then obtain q' where q': "(u, q') \<in> set al" "role q' = ''giocatore''" by auto
    from d q'(1) x uq have "q' = q" by (auto dest: eq_key_imp_eq_value)
    with q'(2) show "role q = ''giocatore''" by simp
  next
    assume "role q = ''giocatore''"
    with x uq show "u \<in> fst ` {(u, p) \<in> set al. role p = ''giocatore''}" by force
  qed
  moreover from roles x uq have "role q = ''giocatore'' \<or> role q = ''cassiere''" by auto
  ultimately show "(case x of (u, p) \<Rightarrow> u \<notin> fst ` {(u, p) \<in> set al. role p = ''giocatore''})
      = (case x of (u, p) \<Rightarrow> role p = ''cassiere'')"
    using uq by auto
qed

lemma singleton_filter:
  "length (filter P al) \<le> 1 \<Longrightarrow> x \<in> set al \<Longrightarrow> P x \<Longrightarrow> filter P al = [x]"
proof -
  assume a: "length (filter P al) \<le> 1" "x \<in> set al" "P x"
  then have "x \<in> set (filter P al)" by simp
  with a(1) show ?thesis
    by (cases "filter P al") (auto simp del: set_filter)
qed

text \<open>
  Claim C8. In a reachable state, \<open>cashier_reset_players\<close> called by the cashier
  succeeds and leaves the cashier as the only participant, with its name and role and
  with balance 0: every participant with role \<open>giocatore\<close> is gone from the registry
  and has no ledger any more, the cashier's ledger is empty, there is no prize and the
  pot is 0.
\<close>

theorem C8_reset_players:
  "reachable g \<Longrightarrow> require_cashier g x_user = Inr cid \<Longrightarrow>
   \<exists>g' p. cashier_reset_players g clk x_user = (Inr Ok, g')
     \<and> map_of (players g) cid = Some p
     \<and> players g' = [(cid, p\<lparr>saldo := 0\<rparr>)]
     \<and> (\<forall>uid q. map_of (players g) uid = Some q \<and> role q = ''giocatore''
           \<longrightarrow> map_of (players g') uid = None \<and> map_of (ledger g') uid = None)
     \<and> map_of (ledger g') cid = Some []
     \<and> prizes g' = [] \<and> pot g' = 0"
proof -
  assume r: "reachable g" and rc: "require_cashier g x_user = Inr cid"
  from r have wf: "well_formed g" by (rule reachable_well_formed)
  then have ok: "players_ok (players g)" by (simp add: well_formed_def)
  then have d: "distinct (map fst (players g))"
    and one: "length (filter (\<lambda>(uid, p). role p = ''cassiere'') (players g)) \<le> 1"
    by (simp_all add: players_ok_def)
  from rc obtain p where p: "map_of (players g) cid = Some p" "role p = ''cassiere''"
    by (auto simp: require_cashier_Inr)
  let ?R = "fst ` {(u, p) \<in> set (players g). role p = ''giocatore''}"
  obtain r' g' where eq: "cashier_reset_players g clk x_user = (r', g')"
    by (cases "cashier_reset_players g clk x_user")
  with rc have r': "r' = Inr Ok" by (auto simp: cashier_reset_players_def Let_def)
  from eq[unfolded r'] have
    "players g' = [(cid, p\<lparr>saldo := 0\<rparr>)]
     \<and> (\<forall>uid q. map_of (players g) uid = Some q \<and> role q = ''giocatore''
           \<longrightarrow> map_of (players g') uid = None \<and> map_of (ledger g') uid = None)
     \<and> map_of (ledger g') cid = Some []
     \<and> prizes g' = [] \<and> pot g' = 0"
  proof (rule cashier_reset_players_ok)
    fix cid' rest
    assume rc': "require_cashier g x_user = Inr cid'"
      and rest: "rest = filter (\<lambda>(u, p). u \<notin> ?R) (players g)"
      and pl: "players g' = AList.map_entry cid' (\<lambda>p. p\<lparr>saldo := 0\<rparr>) rest"
      and le: "ledger g' = (let l = filter (\<lambda>(u, l). u \<notin> ?R) (ledger g)
                  in if map_of rest cid' = None then l else AList.update cid' [] l)"
      and pr: "prizes g' = []" and po: "pot g' = 0"
    from rc rc' have [simp]: "cid' = cid" by simp
    from p(1) have "(cid, p) \<in> set (players g)" by (rule map_of_SomeD)
    with one p(2) have "filter (\<lambda>(uid, p). role p = ''cassiere'') (players g) = [(cid, p)]"
      by (intro singleton_filter) auto
    with rest ok have rest': "rest = [(cid, p)]" by (simp add: rest_is_cashiers)
    with pl have pl': "players g' = [(cid, p\<lparr>saldo := 0\<rparr>)]" by simp
    from rest' le have le': "ledger g' = AList.update cid [] (filter (\<lambda>(u, l). u \<notin> ?R) (ledger g))"
      by (simp add: Let_def)
    have gone: "map_of (players g') uid = None \<and> map_of (ledger g') uid = None"
      if q: "map_of (players g) uid = Some q" "role q = ''giocatore''" for uid q
    proof -
      from q p have ne: "uid \<noteq> cid" by auto
      from q have "(uid, q) \<in> set (players g)" by (auto dest: map_of_SomeD)
      with q(2) have "uid \<in> ?R" by force
      then have "uid \<notin> set (map fst (filter (\<lambda>(u, l). u \<notin> ?R) (ledger g)))"
        by (simp add: keys_filter_notin del: set_map)
      then have "map_of (filter (\<lambda>(u, l). u \<notin> ?R) (ledger g)) uid = None"
        by (simp add: map_of_eq_None_iff)
      with ne pl' le' show ?thesis by (simp add: update_conv')
    qed
    from le' have "map_of (ledger g') cid = Some []" by (simp add: update_conv')
    with pl' gone pr po show ?thesis by blast
  qed
  with eq r' p(1) show ?thesis by blast
qed

theorem C8_reset_players_witness:
  "reachable (after 5)
   \<and> require_cashier (after 5) (Some ''0000000000000001'') = Inr ''0000000000000001''
   \<and> pot (after 5) = 30
   \<and> (\<exists>g'. cashier_reset_players (after 5) tick (Some ''0000000000000001'') = (Inr Ok, g')
         \<and> players g' = [(''0000000000000001'', \<lparr>name = ''Carla'', role = ''cassiere'', saldo = 0\<rparr>)]
         \<and> map_of (players g') ''0000000000000002'' = None
         \<and> map_of (ledger g') ''0000000000000002'' = None
         \<and> map_of (ledger g') ''0000000000000001'' = Some []
         \<and> prizes g' = [] \<and> pot g' = 0)"
proof -
  have p: "map_of (players (after 5)) ''0000000000000001''
            = Some \<lparr>name = ''Carla'', role = ''cassiere'', saldo = - 50\<rparr>"
    "map_of (players (after 5)) ''0000000000000002''
            = Some \<lparr>name = ''Piero'', role = ''giocatore'', saldo = 20\<rparr>"
    by (simp_all add: after_5)
  from C8_reset_players [OF reachable_after after_5_reset(1), of tick]
  obtain g' p' where g':
    "cashier_reset_players (after 5) tick (Some ''0000000000000001'') = (Inr Ok, g')"
    "map_of (players (after 5)) ''0000000000000001'' = Some p'"
    "players g' = [(''0000000000000001'', p'\<lparr>saldo := 0\<rparr>)]"
    "\<forall>uid q. map_of (players (after 5)) uid = Some q \<and> role q = ''giocatore''
           \<longrightarrow> map_of (players g') uid = None \<and> map_of (ledger g') uid = None"
    "map_of (ledger g') ''0000000000000001'' = Some []" "prizes g' = []" "pot g' = 0"
    by blast
  from g'(2) p(1) have "p' = \<lparr>name = ''Carla'', role = ''cassiere'', saldo = - 50\<rparr>" by simp
  with g'(3) have pl: "players g' = [(''0000000000000001'', \<lparr>name = ''Carla'', role = ''cassiere'', saldo = 0\<rparr>)]"
    by simp
  from g'(4) p(2) have "map_of (players g') ''0000000000000002'' = None
      \<and> map_of (ledger g') ''0000000000000002'' = None"
    by simp
  with g'(1,5,6,7) pl reachable_after [of 5] after_5_reset(1) after_5(3) show ?thesis by blast
qed

section \<open>Privacy of the projection\<close>

lemma snap_players_eq:
  "snap_players (fst (public_state_for g v)) = players_public_for g v"
  by (simp add: public_state_for_def Let_def split: prod.splits)

lemma snap_prizes_eq:
  "snap_prizes (fst (public_state_for g v)) =
     (if map_option role (viewer_of g v) = Some ''cassiere'' then prizes g
      else if map_option role (viewer_of g v) = Some ''giocatore''
           then filter (\<lambda>p. \<not> paid p) (prizes g)
      else [])"
  by (simp add: public_state_for_def Let_def split: prod.splits)

lemma public_item:
  assumes "item \<in> set (players_public_for g v)"
  obtains uid pdata where "(uid, pdata) \<in> set (players g)" "pub_id item = uid"
    "pub_saldo item =
       (if map_option role (viewer_of g v) = Some ''cassiere'' then Some (saldo pdata)
        else if v \<noteq> None \<and> v \<noteq> Some [] \<and> Some uid = v then Some (saldo pdata) else None)"
proof -
  from assms obtain uid pdata where m: "(uid, pdata) \<in> set (players g)"
    and i: "item = \<lparr>pub_id = uid, pub_name = name pdata, pub_role = role pdata,
                   pub_saldo =
                     (if map_option role (viewer_of g v) = Some ''cassiere''
                      then Some (saldo pdata)
                      else if v \<noteq> None \<and> v \<noteq> Some [] \<and> Some uid = v
                           then Some (saldo pdata) else None)\<rparr>"
    unfolding players_public_for_def Let_def by auto
  from m show thesis by (rule that) (simp_all add: i)
qed

text \<open>
  Claim C9. For every state and every viewer, an entry of the projected participant list
  shows a balance only when the viewer's role is \<open>cassiere\<close> or the entry is the
  viewer's own. For a viewer with role \<open>giocatore\<close> every other entry has no balance
  and no prize of the projected list is paid. For an anonymous viewer (no id, the empty
  id, or an id that is not registered) no entry has a balance and the prize list is
  empty.
\<close>

theorem C9_projection_privacy:
  "(\<forall>item \<in> set (snap_players (fst (public_state_for g viewer_id))).
       pub_saldo item \<noteq> None \<longrightarrow>
         map_option role (viewer_of g viewer_id) = Some ''cassiere''
         \<or> viewer_id = Some (pub_id item))
   \<and> (map_option role (viewer_of g viewer_id) = Some ''giocatore'' \<longrightarrow>
         (\<forall>item \<in> set (snap_players (fst (public_state_for g viewer_id))).
            viewer_id \<noteq> Some (pub_id item) \<longrightarrow> pub_saldo item = None)
         \<and> (\<forall>p \<in> set (snap_prizes (fst (public_state_for g viewer_id))). \<not> paid p))
   \<and> (viewer_of g viewer_id = None \<longrightarrow>
         (\<forall>item \<in> set (snap_players (fst (public_state_for g viewer_id))).
            pub_saldo item = None)
         \<and> snap_prizes (fst (public_state_for g viewer_id)) = [])"
proof (intro conjI impI ballI)
  fix item
  assume "item \<in> set (snap_players (fst (public_state_for g viewer_id)))"
    and "pub_saldo item \<noteq> None"
  then show "map_option role (viewer_of g viewer_id) = Some ''cassiere''
      \<or> viewer_id = Some (pub_id item)"
    unfolding snap_players_eq by (elim public_item) (auto split: if_splits)
next
  fix item
  assume "map_option role (viewer_of g viewer_id) = Some ''giocatore''"
    and "item \<in> set (snap_players (fst (public_state_for g viewer_id)))"
    and "viewer_id \<noteq> Some (pub_id item)"
  then show "pub_saldo item = None"
    unfolding snap_players_eq by (elim public_item) (auto split: if_splits)
next
  fix p
  assume "map_option role (viewer_of g viewer_id) = Some ''giocatore''"
    and "p \<in> set (snap_prizes (fst (public_state_for g viewer_id)))"
  then show "\<not> paid p" by (auto simp: snap_prizes_eq split: if_splits)
next
  fix item
  assume anon: "viewer_of g viewer_id = None"
    and "item \<in> set (snap_players (fst (public_state_for g viewer_id)))"
  then have "item \<in> set (players_public_for g viewer_id)" by (simp add: snap_players_eq)
  then show "pub_saldo item = None"
  proof (rule public_item)
    fix uid pdata
    assume m: "(uid, pdata) \<in> set (players g)"
      and s: "pub_saldo item =
       (if map_option role (viewer_of g viewer_id) = Some ''cassiere'' then Some (saldo pdata)
        else if viewer_id \<noteq> None \<and> viewer_id \<noteq> Some [] \<and> Some uid = viewer_id
             then Some (saldo pdata) else None)"
    have "\<not> (viewer_id \<noteq> None \<and> viewer_id \<noteq> Some [] \<and> Some uid = viewer_id)"
    proof
      assume v: "viewer_id \<noteq> None \<and> viewer_id \<noteq> Some [] \<and> Some uid = viewer_id"
      with anon have "map_of (players g) uid = None"
        by (auto simp: viewer_of_def split: if_splits)
      with m show False by (force simp: map_of_eq_None_iff)
    qed
    with s anon show ?thesis by simp
  qed
next
  assume "viewer_of g viewer_id = None"
  then show "snap_prizes (fst (public_state_for g viewer_id)) = []"
    by (simp add: snap_prizes_eq)
qed

theorem C9_projection_privacy_witness:
  "map_option role (viewer_of (after 6) (Some ''0000000000000002'')) = Some ''giocatore''
   \<and> paid (prizes (after 6) ! 0)
   \<and> snap_players (fst (public_state_for (after 6) (Some ''0000000000000002''))) =
       [\<lparr>pub_id = ''0000000000000001'', pub_name = ''Carla'', pub_role = ''cassiere'',
          pub_saldo = None\<rparr>,
        \<lparr>pub_id = ''0000000000000002'', pub_name = ''Piero'', pub_role = ''giocatore'',
          pub_saldo = Some 50\<rparr>]
   \<and> snap_prizes (fst (public_state_for (after 6) (Some ''0000000000000002''))) = []
   \<and> viewer_of (after 6) None = None
   \<and> snap_players (fst (public_state_for (after 6) None)) =
       [\<lparr>pub_id = ''0000000000000001'', pub_name = ''Carla'', pub_role = ''cassiere'',
          pub_saldo = None\<rparr>,
        \<lparr>pub_id = ''0000000000000002'', pub_name = ''Piero'', pub_role = ''giocatore'',
          pub_saldo = None\<rparr>]
   \<and> snap_prizes (fst (public_state_for (after 6) None)) = []"
  using C9_projection_privacy [of "after 6" "Some ''0000000000000002''"]
    C9_projection_privacy [of "after 6" None] after_6_views after_6(2)
  by simp

end
